theory Spec2Isabelle
  imports Main
begin

section \<open>Sparse rows, the row container and the algebraic plugins\<close>

text \<open>
  The source file \<^verbatim>\<open>sparse_mxm_ABT.hpp\<close> holds six row kernels and six entry points.
  The row container (\<^verbatim>\<open>LilSparseMatrix.hpp\<close>) and the row primitives
  (\<^verbatim>\<open>sparse_helpers.hpp\<close>) it includes are defined elsewhere in the repository; their
  definitions below follow the specification's description of them.

  Indices (\<^verbatim>\<open>IndexType\<close>) are natural numbers. All matrices of one call share one
  scalar type, so the \<^verbatim>\<open>static_cast\<close>s between scalar types are identities.
\<close>

type_synonym IndexType = nat

type_synonym 'a Row = "(IndexType \<times> 'a) list"

text \<open>
  Modelled from the spec: the class \<^verbatim>\<open>LilSparseMatrix\<close> (missing). A matrix is a
  sequence of rows, one per row index; the number of rows is the length of that sequence
  (the container keeps one row vector per row from construction on), the number of columns
  is stored, and the count of stored values is the total length of the rows.
\<close>

record 'a LilSparseMatrix =
  m_num_cols :: nat
  m_data :: "'a Row list"

definition nrows :: "'a LilSparseMatrix \<Rightarrow> nat" where
  "nrows M = length (m_data M)"

definition ncols :: "'a LilSparseMatrix \<Rightarrow> nat" where
  "ncols M = m_num_cols M"

definition nvals :: "'a LilSparseMatrix \<Rightarrow> nat" where
  "nvals M = sum_list (map length (m_data M))"

text \<open>
  Modelled from the spec: the constructor \<^verbatim>\<open>LilSparseMatrix(nrows, ncols)\<close> (missing),
  which gives a matrix of the stated dimensions with no stored value.
\<close>

definition LilSparseMatrix_new :: "nat \<Rightarrow> nat \<Rightarrow> 'a LilSparseMatrix" where
  "LilSparseMatrix_new num_rows num_cols = \<lparr>m_num_cols = num_cols, m_data = replicate num_rows []\<rparr>"

text \<open>
  Modelled from the spec: \<^verbatim>\<open>operator[]\<close>, \<^verbatim>\<open>setRow\<close> and \<^verbatim>\<open>clear\<close> of the
  container (missing): reading a row, replacing a whole row, and emptying every row
  without resizing. Reading or writing a row index that is not below
  \<^verbatim>\<open>nrows()\<close> is undefined behaviour in the source and excluded by the preconditions of
  the interface (\<^verbatim>\<open>C.nrows() == A.nrows()\<close>, \<^verbatim>\<open>C.ncols() == B.nrows()\<close>, the mask has the
  shape of \<^verbatim>\<open>C\<close>); the theorems whose content depends on such a read carry these
  preconditions as hypotheses.
\<close>

definition row_at :: "'a LilSparseMatrix \<Rightarrow> IndexType \<Rightarrow> 'a Row" where
  "row_at M i = m_data M ! i"

definition setRow :: "IndexType \<Rightarrow> 'a Row \<Rightarrow> 'a LilSparseMatrix \<Rightarrow> 'a LilSparseMatrix" where
  "setRow i row_data C = C\<lparr>m_data := (m_data C)[i := row_data]\<rparr>"

definition clear :: "'a LilSparseMatrix \<Rightarrow> 'a LilSparseMatrix" where
  "clear C = C\<lparr>m_data := map (\<lambda>r. []) (m_data C)\<rparr>"

text \<open>
  Modelled from the spec: \<^verbatim>\<open>mergeRow\<close> of the container (missing), the row-level
  merge with a combiner. \<open>merge_rows\<close> merges two rows by increasing column index;
  where both rows hold a column the combiner is applied to the existing value (left) and
  the new value (right).
\<close>

fun merge_rows :: "('a \<Rightarrow> 'a \<Rightarrow> 'a) \<Rightarrow> 'a Row \<Rightarrow> 'a Row \<Rightarrow> 'a Row" where
  "merge_rows f [] ys = ys"
| "merge_rows f xs [] = xs"
| "merge_rows f ((i, x) # xs) ((j, y) # ys) =
     (if i = j then (i, f x y) # merge_rows f xs ys
      else if i < j then (i, x) # merge_rows f xs ((j, y) # ys)
      else (j, y) # merge_rows f ((i, x) # xs) ys)"

definition mergeRow ::
  "IndexType \<Rightarrow> 'a Row \<Rightarrow> ('a \<Rightarrow> 'a \<Rightarrow> 'a) \<Rightarrow> 'a LilSparseMatrix \<Rightarrow> 'a LilSparseMatrix" where
  "mergeRow i row_data accum C =
     C\<lparr>m_data := (m_data C)[i := merge_rows accum (m_data C ! i) row_data]\<rparr>"

text \<open>
  Modelled from the spec: the semiring (\<^verbatim>\<open>algebra.hpp\<close>, missing), an object with an
  additive and a multiplicative operator. An accumulator is a binary operator.
\<close>

record 'a Semiring =
  sr_add :: "'a \<Rightarrow> 'a \<Rightarrow> 'a"
  sr_mult :: "'a \<Rightarrow> 'a \<Rightarrow> 'a"

text \<open>
  Modelled from the spec: \<^verbatim>\<open>dot\<close> (missing), the semiring reduction of the values
  that two rows hold at common columns. The result is \<open>None\<close> when no term was produced
  (the source's \<^verbatim>\<open>false\<close>), and \<open>Some\<close> of the reduced value otherwise.
\<close>

fun dot_loop :: "'a Semiring \<Rightarrow> 'a option \<Rightarrow> 'a Row \<Rightarrow> 'a Row \<Rightarrow> 'a option" where
  "dot_loop semiring ans [] vec2 = ans"
| "dot_loop semiring ans vec1 [] = ans"
| "dot_loop semiring ans ((i, x) # vec1) ((j, y) # vec2) =
     (if i = j then
        dot_loop semiring
          (Some (case ans of None \<Rightarrow> sr_mult semiring x y
                 | Some s \<Rightarrow> sr_add semiring s (sr_mult semiring x y))) vec1 vec2
      else if i < j then dot_loop semiring ans vec1 ((j, y) # vec2)
      else dot_loop semiring ans ((i, x) # vec1) vec2)"

definition dot :: "'a Semiring \<Rightarrow> 'a Row \<Rightarrow> 'a Row \<Rightarrow> 'a option" where
  "dot semiring vec1 vec2 = dot_loop semiring None vec1 vec2"

text \<open>
  Modelled from the spec: \<^verbatim>\<open>advance_and_check_mask_iterator\<close> (missing). The iterator
  is the part of the mask row not yet passed; the helper moves it past every entry whose
  column is below the target and reports whether it then stands on the target column.
  The mask is structural: only the presence of a column matters.
\<close>

definition advance_and_check_mask_iterator :: "'a Row \<Rightarrow> IndexType \<Rightarrow> bool \<times> 'a Row" where
  "advance_and_check_mask_iterator m_it target_index =
     (let m_it' = dropWhile (\<lambda>e. fst e < target_index) m_it
      in (m_it' \<noteq> [] \<and> fst (hd m_it') = target_index, m_it'))"

text \<open>
  Modelled from the spec: the mask test that \<^verbatim>\<open>masked_merge\<close> and \<^verbatim>\<open>masked_accum\<close>
  (missing) apply to a column: present in the mask row, or absent when complemented.
\<close>

definition mask_test :: "'a Row \<Rightarrow> bool \<Rightarrow> IndexType \<Rightarrow> bool" where
  "mask_test mask_row complement j = ((j \<in> fst ` set mask_row) \<noteq> complement)"

text \<open>
  Modelled from the spec: \<^verbatim>\<open>masked_merge\<close> (missing): the entries of the existing row
  whose column fails the mask test are kept, the entries of the new row are written for
  the columns that pass it, the new row taking precedence on overlap.
\<close>

definition masked_merge :: "'a Row \<Rightarrow> bool \<Rightarrow> 'a Row \<Rightarrow> 'a Row \<Rightarrow> 'a Row" where
  "masked_merge mask_row complement existing newRow =
     merge_rows (\<lambda>old new. new)
       (filter (\<lambda>e. \<not> mask_test mask_row complement (fst e)) existing)
       (filter (\<lambda>e. mask_test mask_row complement (fst e)) newRow)"

text \<open>
  Modelled from the spec: \<^verbatim>\<open>masked_accum\<close> (missing): for each column that passes the
  mask test, the accumulator applied to the existing and the new value when both are
  present, and the one that is present otherwise; columns that fail the test are dropped.
\<close>

definition masked_accum ::
  "'a Row \<Rightarrow> bool \<Rightarrow> ('a \<Rightarrow> 'a \<Rightarrow> 'a) \<Rightarrow> 'a Row \<Rightarrow> 'a Row \<Rightarrow> 'a Row" where
  "masked_accum mask_row complement accum existing newRow =
     merge_rows accum
       (filter (\<lambda>e. mask_test mask_row complement (fst e)) existing)
       (filter (\<lambda>e. mask_test mask_row complement (fst e)) newRow)"

section \<open>Row kernels\<close>

text \<open>
  The inner loop over \<open>j\<close> of the two unmasked kernels: row \<open>i\<close> of \<open>A +.* B'\<close>.
\<close>

definition NoMask_row :: "'a Semiring \<Rightarrow> 'a Row \<Rightarrow> 'a LilSparseMatrix \<Rightarrow> 'a Row" where
  "NoMask_row semiring A_i B =
     fold (\<lambda>j T_row.
             if row_at B j = [] then T_row
             else (case dot semiring A_i (row_at B j) of
                     Some t_ij \<Rightarrow> T_row @ [(j, t_ij)]
                   | None \<Rightarrow> T_row))
          [0..<nrows B] []"

text \<open>
  The inner loop of the two kernels with an uncomplemented mask. The state is the mask
  iterator and the row built so far; the iterator is not advanced when \<open>B[j]\<close> is empty
  (the source's \<^verbatim>\<open>||\<close> does not evaluate its second operand then).
\<close>

definition Mask_row :: "'a Semiring \<Rightarrow> 'a Row \<Rightarrow> 'a Row \<Rightarrow> 'a LilSparseMatrix \<Rightarrow> 'a Row" where
  "Mask_row semiring M_i A_i B =
     snd (fold (\<lambda>j (M_iter, T_row).
                  if row_at B j = [] then (M_iter, T_row)
                  else (case advance_and_check_mask_iterator M_iter j of
                          (ok, M_iter') \<Rightarrow>
                            if \<not> ok then (M_iter', T_row)
                            else (case dot semiring A_i (row_at B j) of
                                    Some t_ij \<Rightarrow> (M_iter', T_row @ [(j, t_ij)])
                                  | None \<Rightarrow> (M_iter', T_row))))
               [0..<nrows B] (M_i, []))"

text \<open>The inner loop of the two kernels with a complemented mask.\<close>

definition CompMask_row :: "'a Semiring \<Rightarrow> 'a Row \<Rightarrow> 'a Row \<Rightarrow> 'a LilSparseMatrix \<Rightarrow> 'a Row" where
  "CompMask_row semiring M_i A_i B =
     snd (fold (\<lambda>j (M_iter, T_row).
                  if row_at B j = [] then (M_iter, T_row)
                  else (case advance_and_check_mask_iterator M_iter j of
                          (ok, M_iter') \<Rightarrow>
                            if ok then (M_iter', T_row)
                            else (case dot semiring A_i (row_at B j) of
                                    Some t_ij \<Rightarrow> (M_iter', T_row @ [(j, t_ij)])
                                  | None \<Rightarrow> (M_iter', T_row))))
               [0..<nrows B] (M_i, []))"

text \<open>
  \<^verbatim>\<open>ABT_NoMask_NoAccum_kernel\<close>: the \<^verbatim>\<open>continue\<close> on an empty \<open>A[i]\<close> comes before
  \<^verbatim>\<open>C.setRow\<close>, so such a row of \<open>C\<close> is not written.
\<close>

definition ABT_NoMask_NoAccum_kernel ::
  "'a LilSparseMatrix \<Rightarrow> 'a Semiring \<Rightarrow> 'a LilSparseMatrix \<Rightarrow> 'a LilSparseMatrix
   \<Rightarrow> 'a LilSparseMatrix" where
  "ABT_NoMask_NoAccum_kernel C semiring A B =
     fold (\<lambda>i C.
             if row_at A i = [] then C
             else setRow i (NoMask_row semiring (row_at A i) B) C)
          [0..<nrows A] C"

definition ABT_NoMask_Accum_kernel ::
  "'a LilSparseMatrix \<Rightarrow> ('a \<Rightarrow> 'a \<Rightarrow> 'a) \<Rightarrow> 'a Semiring \<Rightarrow> 'a LilSparseMatrix
   \<Rightarrow> 'a LilSparseMatrix \<Rightarrow> 'a LilSparseMatrix" where
  "ABT_NoMask_Accum_kernel C accum semiring A B =
     fold (\<lambda>i C.
             if row_at A i = [] then C
             else (let T_row = NoMask_row semiring (row_at A i) B
                   in if T_row \<noteq> [] then mergeRow i T_row accum C else C))
          [0..<nrows A] C"

definition ABT_Mask_NoAccum_kernel ::
  "'a LilSparseMatrix \<Rightarrow> 'a LilSparseMatrix \<Rightarrow> 'a Semiring \<Rightarrow> 'a LilSparseMatrix
   \<Rightarrow> 'a LilSparseMatrix \<Rightarrow> bool \<Rightarrow> 'a LilSparseMatrix" where
  "ABT_Mask_NoAccum_kernel C M semiring A B replace_flag =
     fold (\<lambda>i C.
             let T_row = (if row_at A i \<noteq> [] \<and> row_at M i \<noteq> []
                          then Mask_row semiring (row_at M i) (row_at A i) B else [])
             in if replace_flag then setRow i T_row C
                else setRow i (masked_merge (row_at M i) False (row_at C i) T_row) C)
          [0..<nrows A] C"

definition ABT_Mask_Accum_kernel ::
  "'a LilSparseMatrix \<Rightarrow> 'a LilSparseMatrix \<Rightarrow> ('a \<Rightarrow> 'a \<Rightarrow> 'a) \<Rightarrow> 'a Semiring
   \<Rightarrow> 'a LilSparseMatrix \<Rightarrow> 'a LilSparseMatrix \<Rightarrow> bool \<Rightarrow> 'a LilSparseMatrix" where
  "ABT_Mask_Accum_kernel C M accum semiring A B replace_flag =
     fold (\<lambda>i C.
             let T_row = (if row_at A i \<noteq> [] \<and> row_at M i \<noteq> []
                          then Mask_row semiring (row_at M i) (row_at A i) B else []);
                 Z_row = masked_accum (row_at M i) False accum (row_at C i) T_row
             in if replace_flag then setRow i Z_row C
                else setRow i (masked_merge (row_at M i) False (row_at C i) Z_row) C)
          [0..<nrows A] C"

definition ABT_CompMask_NoAccum_kernel ::
  "'a LilSparseMatrix \<Rightarrow> 'a LilSparseMatrix \<Rightarrow> 'a Semiring \<Rightarrow> 'a LilSparseMatrix
   \<Rightarrow> 'a LilSparseMatrix \<Rightarrow> bool \<Rightarrow> 'a LilSparseMatrix" where
  "ABT_CompMask_NoAccum_kernel C M semiring A B replace_flag =
     fold (\<lambda>i C.
             let T_row = (if row_at A i \<noteq> []
                          then CompMask_row semiring (row_at M i) (row_at A i) B else [])
             in if replace_flag then setRow i T_row C
                else setRow i (masked_merge (row_at M i) True (row_at C i) T_row) C)
          [0..<nrows A] C"

definition ABT_CompMask_Accum_kernel ::
  "'a LilSparseMatrix \<Rightarrow> 'a LilSparseMatrix \<Rightarrow> ('a \<Rightarrow> 'a \<Rightarrow> 'a) \<Rightarrow> 'a Semiring
   \<Rightarrow> 'a LilSparseMatrix \<Rightarrow> 'a LilSparseMatrix \<Rightarrow> bool \<Rightarrow> 'a LilSparseMatrix" where
  "ABT_CompMask_Accum_kernel C M accum semiring A B replace_flag =
     fold (\<lambda>i C.
             let T_row = (if row_at A i \<noteq> []
                          then CompMask_row semiring (row_at M i) (row_at A i) B else []);
                 Z_row = masked_accum (row_at M i) True accum (row_at C i) T_row
             in if replace_flag then setRow i Z_row C
                else setRow i (masked_merge (row_at M i) True (row_at C i) Z_row) C)
          [0..<nrows A] C"

section \<open>Entry points\<close>

text \<open>
  The entry points compare the addresses of \<open>C\<close> and \<open>B\<close>. Matrices therefore live in a
  store, the operands are addresses, and an entry point returns the store it leaves
  behind. The kernels read row \<open>i\<close> of their inputs before they write row \<open>i\<close> of \<open>C\<close>
  and read no other row of \<open>A\<close> or \<open>M\<close> in that iteration, so they are functions of the
  values of their operands; only \<open>B\<close>, read whole in every iteration, must not be \<open>C\<close>,
  and the entry points see to that with the temporary \<open>Ctmp\<close>. \<^verbatim>\<open>C.swap(Ctmp)\<close> leaves
  the contents of \<open>Ctmp\<close> in \<open>C\<close>; \<open>Ctmp\<close> is then discarded.
\<close>

type_synonym addr = nat

type_synonym 'a store = "addr \<Rightarrow> 'a LilSparseMatrix"

definition sparse_mxm_NoMask_NoAccum_ABT ::
  "addr \<Rightarrow> 'a Semiring \<Rightarrow> addr \<Rightarrow> addr \<Rightarrow> 'a store \<Rightarrow> 'a store" where
  "sparse_mxm_NoMask_NoAccum_ABT c semiring a b \<sigma> =
     (if nvals (\<sigma> a) = 0 \<or> nvals (\<sigma> b) = 0 then \<sigma>(c := clear (\<sigma> c))
      else if c = b then
        (let Ctmp = LilSparseMatrix_new (nrows (\<sigma> c)) (ncols (\<sigma> c));
             Ctmp = ABT_NoMask_NoAccum_kernel Ctmp semiring (\<sigma> a) (\<sigma> b)
         in \<sigma>(c := Ctmp))
      else \<sigma>(c := ABT_NoMask_NoAccum_kernel (\<sigma> c) semiring (\<sigma> a) (\<sigma> b)))"

definition sparse_mxm_NoMask_Accum_ABT ::
  "addr \<Rightarrow> ('a \<Rightarrow> 'a \<Rightarrow> 'a) \<Rightarrow> 'a Semiring \<Rightarrow> addr \<Rightarrow> addr \<Rightarrow> 'a store \<Rightarrow> 'a store" where
  "sparse_mxm_NoMask_Accum_ABT c accum semiring a b \<sigma> =
     (if nvals (\<sigma> a) = 0 \<or> nvals (\<sigma> b) = 0 then \<sigma>
      else if c = b then
        (let Ctmp = LilSparseMatrix_new (nrows (\<sigma> c)) (ncols (\<sigma> c));
             Ctmp = ABT_NoMask_NoAccum_kernel Ctmp semiring (\<sigma> a) (\<sigma> b)
         in \<sigma>(c := fold (\<lambda>i C. mergeRow i (row_at Ctmp i) accum C)
                        [0..<nrows (\<sigma> c)] (\<sigma> c)))
      else \<sigma>(c := ABT_NoMask_Accum_kernel (\<sigma> c) accum semiring (\<sigma> a) (\<sigma> b)))"

definition sparse_mxm_Mask_NoAccum_ABT ::
  "addr \<Rightarrow> addr \<Rightarrow> 'a Semiring \<Rightarrow> addr \<Rightarrow> addr \<Rightarrow> bool \<Rightarrow> 'a store \<Rightarrow> 'a store" where
  "sparse_mxm_Mask_NoAccum_ABT c m semiring a b replace_flag \<sigma> =
     (if replace_flag \<and> (nvals (\<sigma> a) = 0 \<or> nvals (\<sigma> b) = 0 \<or> nvals (\<sigma> m) = 0)
      then \<sigma>(c := clear (\<sigma> c))
      else if \<not> replace_flag \<and> nvals (\<sigma> m) = 0 then \<sigma>
      else if c = b then
        (let Ctmp = LilSparseMatrix_new (nrows (\<sigma> c)) (ncols (\<sigma> c));
             Ctmp = ABT_Mask_NoAccum_kernel Ctmp (\<sigma> m) semiring (\<sigma> a) (\<sigma> b) True
         in if replace_flag then \<sigma>(c := Ctmp)
            else \<sigma>(c := fold (\<lambda>i C. setRow i (masked_merge (row_at (\<sigma> m) i) False
                                                  (row_at C i) (row_at Ctmp i)) C)
                             [0..<nrows (\<sigma> c)] (\<sigma> c)))
      else \<sigma>(c := ABT_Mask_NoAccum_kernel (\<sigma> c) (\<sigma> m) semiring (\<sigma> a) (\<sigma> b) replace_flag))"

definition sparse_mxm_Mask_Accum_ABT ::
  "addr \<Rightarrow> addr \<Rightarrow> ('a \<Rightarrow> 'a \<Rightarrow> 'a) \<Rightarrow> 'a Semiring \<Rightarrow> addr \<Rightarrow> addr \<Rightarrow> bool
   \<Rightarrow> 'a store \<Rightarrow> 'a store" where
  "sparse_mxm_Mask_Accum_ABT c m accum semiring a b replace_flag \<sigma> =
     (if replace_flag \<and> nvals (\<sigma> m) = 0 then \<sigma>(c := clear (\<sigma> c))
      else if \<not> replace_flag \<and> nvals (\<sigma> m) = 0 then \<sigma>
      else if c = b then
        (let Ctmp = LilSparseMatrix_new (nrows (\<sigma> c)) (ncols (\<sigma> c));
             Ctmp = ABT_Mask_NoAccum_kernel Ctmp (\<sigma> m) semiring (\<sigma> a) (\<sigma> b) True
         in \<sigma>(c := fold (\<lambda>i C.
                           let Z_row = masked_accum (row_at (\<sigma> m) i) False accum
                                         (row_at C i) (row_at Ctmp i)
                           in if replace_flag then setRow i Z_row C
                              else setRow i (masked_merge (row_at (\<sigma> m) i) False
                                               (row_at C i) Z_row) C)
                        [0..<nrows (\<sigma> c)] (\<sigma> c)))
      else \<sigma>(c := ABT_Mask_Accum_kernel (\<sigma> c) (\<sigma> m) accum semiring (\<sigma> a) (\<sigma> b)
                    replace_flag))"

definition sparse_mxm_CompMask_NoAccum_ABT ::
  "addr \<Rightarrow> addr \<Rightarrow> 'a Semiring \<Rightarrow> addr \<Rightarrow> addr \<Rightarrow> bool \<Rightarrow> 'a store \<Rightarrow> 'a store" where
  "sparse_mxm_CompMask_NoAccum_ABT c m semiring a b replace_flag \<sigma> =
     (if replace_flag \<and> (nvals (\<sigma> a) = 0 \<or> nvals (\<sigma> b) = 0)
      then \<sigma>(c := clear (\<sigma> c))
      else if c = b then
        (let Ctmp = LilSparseMatrix_new (nrows (\<sigma> c)) (ncols (\<sigma> c));
             Ctmp = ABT_CompMask_NoAccum_kernel Ctmp (\<sigma> m) semiring (\<sigma> a) (\<sigma> b) True
         in if replace_flag then \<sigma>(c := Ctmp)
            else \<sigma>(c := fold (\<lambda>i C. setRow i (masked_merge (row_at (\<sigma> m) i) True
                                                  (row_at C i) (row_at Ctmp i)) C)
                             [0..<nrows (\<sigma> c)] (\<sigma> c)))
      else \<sigma>(c := ABT_CompMask_NoAccum_kernel (\<sigma> c) (\<sigma> m) semiring (\<sigma> a) (\<sigma> b)
                    replace_flag))"

definition sparse_mxm_CompMask_Accum_ABT ::
  "addr \<Rightarrow> addr \<Rightarrow> ('a \<Rightarrow> 'a \<Rightarrow> 'a) \<Rightarrow> 'a Semiring \<Rightarrow> addr \<Rightarrow> addr \<Rightarrow> bool
   \<Rightarrow> 'a store \<Rightarrow> 'a store" where
  "sparse_mxm_CompMask_Accum_ABT c m accum semiring a b replace_flag \<sigma> =
     (if c = b then
        (let Ctmp = LilSparseMatrix_new (nrows (\<sigma> c)) (ncols (\<sigma> c));
             Ctmp = ABT_CompMask_NoAccum_kernel Ctmp (\<sigma> m) semiring (\<sigma> a) (\<sigma> b) True
         in \<sigma>(c := fold (\<lambda>i C.
                           let Z_row = masked_accum (row_at (\<sigma> m) i) True accum
                                         (row_at C i) (row_at Ctmp i)
                           in if replace_flag then setRow i Z_row C
                              else setRow i (masked_merge (row_at (\<sigma> m) i) True
                                               (row_at C i) Z_row) C)
                        [0..<nrows (\<sigma> c)] (\<sigma> c)))
      else \<sigma>(c := ABT_CompMask_Accum_kernel (\<sigma> c) (\<sigma> m) accum semiring (\<sigma> a) (\<sigma> b)
                    replace_flag))"

section \<open>Reference notions for the statements\<close>

text \<open>
  What a loop \<^verbatim>\<open>for (i = 0; i < n; ++i)\<close> leaves behind when its body replaces row
  \<open>i\<close> of \<open>C\<close> by a function \<open>g i\<close> of that row's current contents: the rows below
  \<open>n\<close> are rewritten, each from its own old contents, the others stay.
\<close>

definition map_rows ::
  "nat \<Rightarrow> (IndexType \<Rightarrow> 'a Row \<Rightarrow> 'a Row) \<Rightarrow> 'a LilSparseMatrix \<Rightarrow> 'a LilSparseMatrix" where
  "map_rows n g C =
     C\<lparr>m_data := map (\<lambda>i. if i < n then g i (row_at C i) else row_at C i) [0..<nrows C]\<rparr>"

text \<open>
  Row \<open>i\<close> of the product \<open>A +.* B'\<close> on the eligible columns: the entries \<open>(j, t)\<close>,
  by increasing \<open>j\<close> below \<^verbatim>\<open>B.nrows()\<close>, for which \<open>B[j]\<close> is not empty, \<open>j\<close> is eligible
  and \<^verbatim>\<open>dot\<close> of \<open>A[i]\<close> and \<open>B[j]\<close> produced the value \<open>t\<close>.
\<close>

definition product_row ::
  "(IndexType \<Rightarrow> bool) \<Rightarrow> 'a Semiring \<Rightarrow> 'a Row \<Rightarrow> 'a LilSparseMatrix \<Rightarrow> 'a Row" where
  "product_row eligible semiring A_i B =
     concat (map (\<lambda>j. if row_at B j \<noteq> [] \<and> eligible j
                       then (case dot semiring A_i (row_at B j) of
                               Some t_ij \<Rightarrow> [(j, t_ij)]
                             | None \<Rightarrow> [])
                       else [])
                 [0..<nrows B])"

text \<open>
  The accumulation of the full unmasked product into \<open>C\<close>, in the specification's words
  \<open>C[i] = C[i] accum (A\<cdot>B\<^sup>T)[i]\<close> for every row of \<open>C\<close>.
\<close>

definition accum_unmasked_product ::
  "'a LilSparseMatrix \<Rightarrow> ('a \<Rightarrow> 'a \<Rightarrow> 'a) \<Rightarrow> 'a Semiring \<Rightarrow> 'a LilSparseMatrix
   \<Rightarrow> 'a LilSparseMatrix \<Rightarrow> 'a LilSparseMatrix" where
  "accum_unmasked_product C accum semiring A B =
     C\<lparr>m_data := map (\<lambda>i. merge_rows accum (row_at C i)
                              (product_row (\<lambda>j. True) semiring (row_at A i) B))
                      [0..<nrows C]\<rparr>"

text \<open>
  The invariants of the data model: the columns of a row increase strictly, and the
  columns stored in a matrix are below its number of columns.
\<close>

definition row_sorted :: "'a Row \<Rightarrow> bool" where
  "row_sorted r = sorted_wrt (<) (map fst r)"

definition rows_sorted :: "'a LilSparseMatrix \<Rightarrow> bool" where
  "rows_sorted M = (\<forall>r \<in> set (m_data M). row_sorted r)"

definition cols_in_bounds :: "'a LilSparseMatrix \<Rightarrow> bool" where
  "cols_in_bounds M = (\<forall>r \<in> set (m_data M). \<forall>e \<in> set r. fst e < ncols M)"

text \<open>
  The complemented mask of the specification: \<open>Mc\<close> has the shape of \<open>M\<close>, sorted rows,
  and a stored entry at exactly the positions within bounds where \<open>M\<close> has none.
\<close>

definition mask_complement_of :: "'a LilSparseMatrix \<Rightarrow> 'a LilSparseMatrix \<Rightarrow> bool" where
  "mask_complement_of M Mc =
     (nrows Mc = nrows M \<and> ncols Mc = ncols M \<and>
      (\<forall>i < nrows M.
         row_sorted (row_at Mc i) \<and>
         set (map fst (row_at Mc i))
           = set (filter (\<lambda>j. j \<notin> set (map fst (row_at M i))) [0..<ncols M])))"

section \<open>Example data\<close>

text \<open>
  The specification's example: \<open>A = [[1,0,2],[0,0,0]]\<close> and \<open>B = [[1,0,0],[0,0,2]]\<close> over
  the integers with plus and times. \<open>ex_C\<close> is a destination of the right shape that
  already holds a value in row 1, the row where \<open>A\<close> is empty.
\<close>

definition plus_times :: "int Semiring" where
  "plus_times = \<lparr>sr_add = (+), sr_mult = (*)\<rparr>"

definition ex_A :: "int LilSparseMatrix" where
  "ex_A = \<lparr>m_num_cols = 3, m_data = [[(0, 1), (2, 2)], []]\<rparr>"

definition ex_B :: "int LilSparseMatrix" where
  "ex_B = \<lparr>m_num_cols = 3, m_data = [[(0, 1)], [(2, 2)]]\<rparr>"

definition ex_C :: "int LilSparseMatrix" where
  "ex_C = \<lparr>m_num_cols = 2, m_data = [[], [(1, 7)]]\<rparr>"

definition ex_M_empty :: "int LilSparseMatrix" where
  "ex_M_empty = \<lparr>m_num_cols = 2, m_data = [[], []]\<rparr>"

text \<open>
  A mask of the shape of \<open>ex_C\<close> with one stored entry, at position \<open>(0, 0)\<close>, and
  its complement.
\<close>

definition ex_M :: "int LilSparseMatrix" where
  "ex_M = \<lparr>m_num_cols = 2, m_data = [[(0, 1)], []]\<rparr>"

definition ex_Mc :: "int LilSparseMatrix" where
  "ex_Mc = \<lparr>m_num_cols = 2, m_data = [[(1, 1)], [(0, 1), (1, 1)]]\<rparr>"

text \<open>
  The store with \<open>C\<close> at address 0, \<open>A\<close> at 1, \<open>B\<close> at 2, an empty mask at 3, the
  mask \<open>ex_M\<close> at 4 and its complement at 5.
\<close>

definition ex_store :: "int store" where
  "ex_store = (\<lambda>p. LilSparseMatrix_new 0 0)
     (0 := ex_C, 1 := ex_A, 2 := ex_B, 3 := ex_M_empty, 4 := ex_M, 5 := ex_Mc)"

text \<open>
  A store for the aliased call: the square matrix at address 0 is both \<open>C\<close> and \<open>B\<close>,
  \<open>A\<close> at address 1 has an empty row 1, and address 2 holds a copy of the matrix at 0.
\<close>

definition sq_A :: "int LilSparseMatrix" where
  "sq_A = \<lparr>m_num_cols = 2, m_data = [[(0, 1)], []]\<rparr>"

definition sq_B :: "int LilSparseMatrix" where
  "sq_B = \<lparr>m_num_cols = 2, m_data = [[(0, 2)], [(1, 3)]]\<rparr>"

definition alias_store :: "int store" where
  "alias_store = (\<lambda>p. LilSparseMatrix_new 0 0)(0 := sq_B, 1 := sq_A, 2 := sq_B)"

lemmas example_defs =
  plus_times_def ex_A_def ex_B_def ex_C_def ex_M_empty_def ex_M_def ex_Mc_def ex_store_def
  sq_A_def sq_B_def alias_store_def LilSparseMatrix_new_def

lemmas container_defs =
  nrows_def ncols_def nvals_def row_at_def setRow_def mergeRow_def clear_def

lemmas entry_defs =
  sparse_mxm_NoMask_NoAccum_ABT_def sparse_mxm_NoMask_Accum_ABT_def
  sparse_mxm_Mask_NoAccum_ABT_def sparse_mxm_Mask_Accum_ABT_def
  sparse_mxm_CompMask_NoAccum_ABT_def sparse_mxm_CompMask_Accum_ABT_def

lemmas eval_defs =
  example_defs container_defs entry_defs
  ABT_NoMask_NoAccum_kernel_def ABT_NoMask_Accum_kernel_def ABT_Mask_NoAccum_kernel_def
  ABT_Mask_Accum_kernel_def ABT_CompMask_NoAccum_kernel_def ABT_CompMask_Accum_kernel_def
  NoMask_row_def Mask_row_def CompMask_row_def dot_def advance_and_check_mask_iterator_def
  masked_merge_def masked_accum_def mask_test_def Let_def upt_rec

section \<open>Facts about the container\<close>

lemma nvals_clear: "nvals (clear C) = 0"
  by (simp add: nvals_def clear_def sum_list_0 comp_def)

lemma merge_rows_Nil2: "merge_rows f xs [] = xs"
  by (cases xs) auto

lemma fst_set_merge_rows:
  "fst ` set (merge_rows f xs ys) = fst ` set xs \<union> fst ` set ys"
  by (induction f xs ys rule: merge_rows.induct) auto

lemma matrix_eqI:
  fixes C D :: "'a LilSparseMatrix"
  assumes "ncols C = ncols D" and "nrows C = nrows D"
    and "\<And>i. i < nrows C \<Longrightarrow> row_at C i = row_at D i"
  shows "C = D"
proof -
  have "m_data C = m_data D"
    using assms(2,3) by (auto simp: nrows_def row_at_def intro: nth_equalityI)
  with assms(1) show ?thesis by (simp add: ncols_def)
qed

lemma nrows_map_rows: "nrows (map_rows n g C) = nrows C"
  by (simp add: map_rows_def nrows_def)

lemma ncols_map_rows: "ncols (map_rows n g C) = ncols C"
  by (simp add: map_rows_def ncols_def)

lemma row_at_map_rows:
  "i < nrows C \<Longrightarrow> row_at (map_rows n g C) i = (if i < n then g i (row_at C i) else row_at C i)"
  by (simp add: map_rows_def nrows_def row_at_def [of "_\<lparr>m_data := _\<rparr>"])

lemma nrows_new: "nrows (LilSparseMatrix_new nr nc) = nr"
  by (simp add: LilSparseMatrix_new_def nrows_def)

lemma ncols_new: "ncols (LilSparseMatrix_new nr nc) = nc"
  by (simp add: LilSparseMatrix_new_def ncols_def)

lemma row_at_new: "i < nr \<Longrightarrow> row_at (LilSparseMatrix_new nr nc) i = []"
  by (simp add: LilSparseMatrix_new_def row_at_def)

lemma nrows_clear: "nrows (clear C) = nrows C"
  by (simp add: clear_def nrows_def)

lemma ncols_clear: "ncols (clear C) = ncols C"
  by (simp add: clear_def ncols_def)

lemma row_at_clear: "i < nrows C \<Longrightarrow> row_at (clear C) i = []"
  by (simp add: clear_def row_at_def nrows_def)

lemma nvals_0_rows: "nvals M = 0 \<Longrightarrow> i < nrows M \<Longrightarrow> row_at M i = []"
  by (auto simp: nvals_def nrows_def row_at_def sum_list_eq_0_iff)

lemma setRow_same: "setRow i (row_at C i) C = C"
  by (simp add: setRow_def row_at_def)

lemma mergeRow_setRow: "mergeRow i r accum C = setRow i (merge_rows accum (row_at C i) r) C"
  by (simp add: mergeRow_def setRow_def row_at_def)

lemma fold_setRow:
  "fold (\<lambda>i C. setRow i (g i (row_at C i)) C) [0..<n] C = map_rows n g C"
proof (induction n)
  case 0
  show ?case by (simp add: map_rows_def row_at_def nrows_def map_nth)
next
  case (Suc n)
  let ?h = "\<lambda>n i. if i < n then g i (row_at C i) else row_at C i"
  have "(map (?h n) [0..<length (m_data C)])[n := g n (map (?h n) [0..<length (m_data C)] ! n)]
        = map (?h (Suc n)) [0..<length (m_data C)]"
    by (rule nth_equalityI) (auto simp: nth_list_update less_Suc_eq row_at_def)
  with Suc show ?case
    by (simp add: map_rows_def setRow_def nrows_def row_at_def [of "_\<lparr>m_data := _\<rparr>"])
qed

lemma fold_rows:
  assumes "\<And>i C. step i C = setRow i (g i (row_at C i)) C"
  shows "fold step [0..<n] C = map_rows n g C"
proof -
  have "step = (\<lambda>i C. setRow i (g i (row_at C i)) C)"
    using assms by (intro ext)
  then show ?thesis by (simp only: fold_setRow)
qed

section \<open>The kernels, row by row\<close>

lemma NoMask_NoAccum_kernel_rows:
  "ABT_NoMask_NoAccum_kernel C semiring A B
     = map_rows (nrows A)
         (\<lambda>i r. if row_at A i = [] then r else NoMask_row semiring (row_at A i) B) C"
  unfolding ABT_NoMask_NoAccum_kernel_def
  by (rule fold_rows) (simp add: setRow_same)

lemma NoMask_Accum_kernel_rows:
  "ABT_NoMask_Accum_kernel C accum semiring A B
     = map_rows (nrows A)
         (\<lambda>i r. if row_at A i = [] then r
                else merge_rows accum r (NoMask_row semiring (row_at A i) B)) C"
  unfolding ABT_NoMask_Accum_kernel_def
  by (rule fold_rows) (simp add: setRow_same mergeRow_setRow Let_def merge_rows_Nil2)

lemma Mask_NoAccum_kernel_rows:
  "ABT_Mask_NoAccum_kernel C M semiring A B replace_flag
     = map_rows (nrows A)
         (\<lambda>i r. let T_row = (if row_at A i \<noteq> [] \<and> row_at M i \<noteq> []
                             then Mask_row semiring (row_at M i) (row_at A i) B else [])
                in if replace_flag then T_row
                   else masked_merge (row_at M i) False r T_row) C"
  unfolding ABT_Mask_NoAccum_kernel_def
  by (rule fold_rows) (simp add: Let_def)

lemma Mask_Accum_kernel_rows:
  "ABT_Mask_Accum_kernel C M accum semiring A B replace_flag
     = map_rows (nrows A)
         (\<lambda>i r. let T_row = (if row_at A i \<noteq> [] \<and> row_at M i \<noteq> []
                             then Mask_row semiring (row_at M i) (row_at A i) B else []);
                    Z_row = masked_accum (row_at M i) False accum r T_row
                in if replace_flag then Z_row
                   else masked_merge (row_at M i) False r Z_row) C"
  unfolding ABT_Mask_Accum_kernel_def
  by (rule fold_rows) (simp add: Let_def)

lemma CompMask_NoAccum_kernel_rows:
  "ABT_CompMask_NoAccum_kernel C M semiring A B replace_flag
     = map_rows (nrows A)
         (\<lambda>i r. let T_row = (if row_at A i \<noteq> []
                             then CompMask_row semiring (row_at M i) (row_at A i) B else [])
                in if replace_flag then T_row
                   else masked_merge (row_at M i) True r T_row) C"
  unfolding ABT_CompMask_NoAccum_kernel_def
  by (rule fold_rows) (simp add: Let_def)

lemma CompMask_Accum_kernel_rows:
  "ABT_CompMask_Accum_kernel C M accum semiring A B replace_flag
     = map_rows (nrows A)
         (\<lambda>i r. let T_row = (if row_at A i \<noteq> []
                             then CompMask_row semiring (row_at M i) (row_at A i) B else []);
                    Z_row = masked_accum (row_at M i) True accum r T_row
                in if replace_flag then Z_row
                   else masked_merge (row_at M i) True r Z_row) C"
  unfolding ABT_CompMask_Accum_kernel_def
  by (rule fold_rows) (simp add: Let_def)

section \<open>The write-back loops of the aliased paths\<close>

lemma mergeRow_loop:
  "fold (\<lambda>i C. mergeRow i (row_at Ctmp i) accum C) [0..<n] C
     = map_rows n (\<lambda>i r. merge_rows accum r (row_at Ctmp i)) C"
  by (rule fold_rows) (simp add: mergeRow_setRow)

lemma masked_merge_loop:
  "fold (\<lambda>i C. setRow i (masked_merge (row_at M i) cf (row_at C i) (row_at Ctmp i)) C) [0..<n] C
     = map_rows n (\<lambda>i r. masked_merge (row_at M i) cf r (row_at Ctmp i)) C"
  by (rule fold_rows) simp

lemma masked_accum_loop:
  "fold (\<lambda>i C. let Z_row = masked_accum (row_at M i) cf accum (row_at C i) (row_at Ctmp i)
               in if rf then setRow i Z_row C
                  else setRow i (masked_merge (row_at M i) cf (row_at C i) Z_row) C) [0..<n] C
     = map_rows n (\<lambda>i r. let Z_row = masked_accum (row_at M i) cf accum r (row_at Ctmp i)
                          in if rf then Z_row else masked_merge (row_at M i) cf r Z_row) C"
  by (rule fold_rows) (simp add: Let_def)

lemma masked_accum_loop_unfolded:
  "fold (\<lambda>i C. if rf
               then setRow i (masked_accum (row_at M i) cf accum (row_at C i) (row_at Ctmp i)) C
               else setRow i (masked_merge (row_at M i) cf (row_at C i)
                                (masked_accum (row_at M i) cf accum (row_at C i)
                                   (row_at Ctmp i))) C) [0..<n] C
     = map_rows n (\<lambda>i r. if rf then masked_accum (row_at M i) cf accum r (row_at Ctmp i)
                          else masked_merge (row_at M i) cf r
                                 (masked_accum (row_at M i) cf accum r (row_at Ctmp i))) C"
  by (rule fold_rows) simp

lemmas kernel_rows =
  NoMask_NoAccum_kernel_rows NoMask_Accum_kernel_rows Mask_NoAccum_kernel_rows
  Mask_Accum_kernel_rows CompMask_NoAccum_kernel_rows CompMask_Accum_kernel_rows
  mergeRow_loop masked_merge_loop masked_accum_loop masked_accum_loop_unfolded

lemmas shape_simps =
  nrows_map_rows ncols_map_rows nrows_new ncols_new nrows_clear ncols_clear

lemmas row_simps = row_at_map_rows row_at_new row_at_clear

section \<open>The entry points, row by row\<close>

lemma NoMask_NoAccum_entry_row:
  assumes "i < nrows (\<sigma> c)"
  shows "row_at (sparse_mxm_NoMask_NoAccum_ABT c semiring a b \<sigma> c) i =
     (if nvals (\<sigma> a) = 0 \<or> nvals (\<sigma> b) = 0 then []
      else if i < nrows (\<sigma> a) \<and> row_at (\<sigma> a) i \<noteq> []
           then NoMask_row semiring (row_at (\<sigma> a) i) (\<sigma> b)
      else if c = b then [] else row_at (\<sigma> c) i)"
  using assms unfolding sparse_mxm_NoMask_NoAccum_ABT_def Let_def kernel_rows
  by (cases "c = b") (simp_all add: shape_simps row_simps)

lemma NoMask_Accum_entry_row:
  assumes "i < nrows (\<sigma> c)"
  shows "row_at (sparse_mxm_NoMask_Accum_ABT c accum semiring a b \<sigma> c) i =
     (if nvals (\<sigma> a) = 0 \<or> nvals (\<sigma> b) = 0 then row_at (\<sigma> c) i
      else if i < nrows (\<sigma> a) \<and> row_at (\<sigma> a) i \<noteq> []
           then merge_rows accum (row_at (\<sigma> c) i)
                  (NoMask_row semiring (row_at (\<sigma> a) i) (\<sigma> b))
      else row_at (\<sigma> c) i)"
  using assms unfolding sparse_mxm_NoMask_Accum_ABT_def Let_def kernel_rows
  by (cases "c = b") (simp_all add: shape_simps row_simps merge_rows_Nil2)

lemma Mask_NoAccum_entry_row:
  assumes "i < nrows (\<sigma> c)" and "nrows (\<sigma> a) = nrows (\<sigma> c)"
  shows "row_at (sparse_mxm_Mask_NoAccum_ABT c m semiring a b replace_flag \<sigma> c) i =
     (if replace_flag \<and> (nvals (\<sigma> a) = 0 \<or> nvals (\<sigma> b) = 0 \<or> nvals (\<sigma> m) = 0) then []
      else if \<not> replace_flag \<and> nvals (\<sigma> m) = 0 then row_at (\<sigma> c) i
      else let T_row = (if row_at (\<sigma> a) i \<noteq> [] \<and> row_at (\<sigma> m) i \<noteq> []
                        then Mask_row semiring (row_at (\<sigma> m) i) (row_at (\<sigma> a) i) (\<sigma> b)
                        else [])
           in if replace_flag then T_row
              else masked_merge (row_at (\<sigma> m) i) False (row_at (\<sigma> c) i) T_row)"
  using assms unfolding sparse_mxm_Mask_NoAccum_ABT_def Let_def kernel_rows
  by (cases "c = b") (simp_all add: shape_simps row_simps)

lemma Mask_Accum_entry_row:
  assumes "i < nrows (\<sigma> c)" and "nrows (\<sigma> a) = nrows (\<sigma> c)"
  shows "row_at (sparse_mxm_Mask_Accum_ABT c m accum semiring a b replace_flag \<sigma> c) i =
     (if replace_flag \<and> nvals (\<sigma> m) = 0 then []
      else if \<not> replace_flag \<and> nvals (\<sigma> m) = 0 then row_at (\<sigma> c) i
      else let T_row = (if row_at (\<sigma> a) i \<noteq> [] \<and> row_at (\<sigma> m) i \<noteq> []
                        then Mask_row semiring (row_at (\<sigma> m) i) (row_at (\<sigma> a) i) (\<sigma> b)
                        else []);
               Z_row = masked_accum (row_at (\<sigma> m) i) False accum (row_at (\<sigma> c) i) T_row
           in if replace_flag then Z_row
              else masked_merge (row_at (\<sigma> m) i) False (row_at (\<sigma> c) i) Z_row)"
  using assms unfolding sparse_mxm_Mask_Accum_ABT_def Let_def kernel_rows
  by (cases "c = b") (simp_all add: shape_simps row_simps)

lemma CompMask_NoAccum_entry_row:
  assumes "i < nrows (\<sigma> c)" and "nrows (\<sigma> a) = nrows (\<sigma> c)"
  shows "row_at (sparse_mxm_CompMask_NoAccum_ABT c m semiring a b replace_flag \<sigma> c) i =
     (if replace_flag \<and> (nvals (\<sigma> a) = 0 \<or> nvals (\<sigma> b) = 0) then []
      else let T_row = (if row_at (\<sigma> a) i \<noteq> []
                        then CompMask_row semiring (row_at (\<sigma> m) i) (row_at (\<sigma> a) i) (\<sigma> b)
                        else [])
           in if replace_flag then T_row
              else masked_merge (row_at (\<sigma> m) i) True (row_at (\<sigma> c) i) T_row)"
  using assms unfolding sparse_mxm_CompMask_NoAccum_ABT_def Let_def kernel_rows
  by (cases "c = b") (simp_all add: shape_simps row_simps)

lemma CompMask_Accum_entry_row:
  assumes "i < nrows (\<sigma> c)" and "nrows (\<sigma> a) = nrows (\<sigma> c)"
  shows "row_at (sparse_mxm_CompMask_Accum_ABT c m accum semiring a b replace_flag \<sigma> c) i =
     (let T_row = (if row_at (\<sigma> a) i \<noteq> []
                   then CompMask_row semiring (row_at (\<sigma> m) i) (row_at (\<sigma> a) i) (\<sigma> b)
                   else []);
          Z_row = masked_accum (row_at (\<sigma> m) i) True accum (row_at (\<sigma> c) i) T_row
      in if replace_flag then Z_row
         else masked_merge (row_at (\<sigma> m) i) True (row_at (\<sigma> c) i) Z_row)"
  using assms unfolding sparse_mxm_CompMask_Accum_ABT_def Let_def kernel_rows
  by (cases "c = b") (simp_all add: shape_simps row_simps)

lemma entry_dims:
  "nrows (sparse_mxm_NoMask_NoAccum_ABT c semiring a b \<sigma> c) = nrows (\<sigma> c)"
  "ncols (sparse_mxm_NoMask_NoAccum_ABT c semiring a b \<sigma> c) = ncols (\<sigma> c)"
  "nrows (sparse_mxm_NoMask_Accum_ABT c accum semiring a b \<sigma> c) = nrows (\<sigma> c)"
  "ncols (sparse_mxm_NoMask_Accum_ABT c accum semiring a b \<sigma> c) = ncols (\<sigma> c)"
  "nrows (sparse_mxm_Mask_NoAccum_ABT c m semiring a b replace_flag \<sigma> c) = nrows (\<sigma> c)"
  "ncols (sparse_mxm_Mask_NoAccum_ABT c m semiring a b replace_flag \<sigma> c) = ncols (\<sigma> c)"
  "nrows (sparse_mxm_Mask_Accum_ABT c m accum semiring a b replace_flag \<sigma> c) = nrows (\<sigma> c)"
  "ncols (sparse_mxm_Mask_Accum_ABT c m accum semiring a b replace_flag \<sigma> c) = ncols (\<sigma> c)"
  "nrows (sparse_mxm_CompMask_NoAccum_ABT c m semiring a b replace_flag \<sigma> c) = nrows (\<sigma> c)"
  "ncols (sparse_mxm_CompMask_NoAccum_ABT c m semiring a b replace_flag \<sigma> c) = ncols (\<sigma> c)"
  "nrows (sparse_mxm_CompMask_Accum_ABT c m accum semiring a b replace_flag \<sigma> c) = nrows (\<sigma> c)"
  "ncols (sparse_mxm_CompMask_Accum_ABT c m accum semiring a b replace_flag \<sigma> c) = ncols (\<sigma> c)"
  unfolding entry_defs Let_def kernel_rows
  by (simp_all add: shape_simps)

lemma entry_frame:
  "p \<noteq> c \<Longrightarrow> sparse_mxm_NoMask_NoAccum_ABT c semiring a b \<sigma> p = \<sigma> p"
  "p \<noteq> c \<Longrightarrow> sparse_mxm_NoMask_Accum_ABT c accum semiring a b \<sigma> p = \<sigma> p"
  "p \<noteq> c \<Longrightarrow> sparse_mxm_Mask_NoAccum_ABT c m semiring a b replace_flag \<sigma> p = \<sigma> p"
  "p \<noteq> c \<Longrightarrow> sparse_mxm_Mask_Accum_ABT c m accum semiring a b replace_flag \<sigma> p = \<sigma> p"
  "p \<noteq> c \<Longrightarrow> sparse_mxm_CompMask_NoAccum_ABT c m semiring a b replace_flag \<sigma> p = \<sigma> p"
  "p \<noteq> c \<Longrightarrow> sparse_mxm_CompMask_Accum_ABT c m accum semiring a b replace_flag \<sigma> p = \<sigma> p"
  by (simp_all add: entry_defs Let_def)

section \<open>The inner loops\<close>

lemma fold_append_concat:
  "fold (\<lambda>j T_row. T_row @ f j) js T = T @ concat (map f js)"
  by (induction js arbitrary: T) auto

lemma NoMask_row_product: "NoMask_row semiring A_i B = product_row (\<lambda>j. True) semiring A_i B"
proof -
  have "NoMask_row semiring A_i B
        = fold (\<lambda>j T_row. T_row @ (if row_at B j \<noteq> [] \<and> True
                        then (case dot semiring A_i (row_at B j) of
                               Some t_ij \<Rightarrow> [(j, t_ij)] | None \<Rightarrow> [])
                        else [])) [0..<nrows B] []"
    unfolding NoMask_row_def
    by (rule arg_cong [where f = "\<lambda>f. fold f [0..<nrows B] []"])
       (auto simp: fun_eq_iff split: option.splits)
  then show ?thesis
    by (simp only: fold_append_concat product_row_def append_Nil)
qed

lemma dropWhile_twice:
  "k \<le> n \<Longrightarrow> dropWhile (\<lambda>e. fst e < n) (dropWhile (\<lambda>e. fst e < k) xs)
     = dropWhile (\<lambda>e. fst e < (n::nat)) xs"
  by (induction xs) auto

lemma dropWhile_hits:
  "sorted (map fst xs) \<Longrightarrow>
   (dropWhile (\<lambda>e. fst e < n) xs \<noteq> [] \<and> fst (hd (dropWhile (\<lambda>e. fst e < n) xs)) = n)
     = ((n::nat) \<in> fst ` set xs)"
  by (induction xs) (auto simp: rev_image_eqI)

lemma advance_and_check_sorted:
  assumes "sorted (map fst M_i)" and "k \<le> j"
  shows "advance_and_check_mask_iterator (dropWhile (\<lambda>e. fst e < k) M_i) j
           = (j \<in> fst ` set M_i, dropWhile (\<lambda>e. fst e < j) M_i)"
  unfolding advance_and_check_mask_iterator_def Let_def dropWhile_twice [OF assms(2)]
  by (simp only: dropWhile_hits [OF assms(1)])

lemma masked_fold:
  assumes "sorted (map fst M_i)"
  shows "\<exists>k \<le> n.
     fold (\<lambda>j (M_iter, T_row).
             if row_at B j = [] then (M_iter, T_row)
             else (case advance_and_check_mask_iterator M_iter j of
                     (ok, M_iter') \<Rightarrow>
                       if ok = cf then (M_iter', T_row)
                       else (case dot semiring A_i (row_at B j) of
                               Some t_ij \<Rightarrow> (M_iter', T_row @ [(j, t_ij)])
                             | None \<Rightarrow> (M_iter', T_row))))
          [0..<n] (M_i, [])
     = (dropWhile (\<lambda>e. fst e < k) M_i,
        concat (map (\<lambda>j. if row_at B j \<noteq> [] \<and> (j \<in> fst ` set M_i) \<noteq> cf
                          then (case dot semiring A_i (row_at B j) of
                                  Some t_ij \<Rightarrow> [(j, t_ij)] | None \<Rightarrow> [])
                          else []) [0..<n]))"
proof (induction n)
  case 0
  show ?case by (rule exI [where x = 0]) simp
next
  case (Suc n)
  then obtain k where k: "k \<le> n" and
    st: "fold (\<lambda>j (M_iter, T_row).
             if row_at B j = [] then (M_iter, T_row)
             else (case advance_and_check_mask_iterator M_iter j of
                     (ok, M_iter') \<Rightarrow>
                       if ok = cf then (M_iter', T_row)
                       else (case dot semiring A_i (row_at B j) of
                               Some t_ij \<Rightarrow> (M_iter', T_row @ [(j, t_ij)])
                             | None \<Rightarrow> (M_iter', T_row))))
          [0..<n] (M_i, [])
     = (dropWhile (\<lambda>e. fst e < k) M_i,
        concat (map (\<lambda>j. if row_at B j \<noteq> [] \<and> (j \<in> fst ` set M_i) \<noteq> cf
                          then (case dot semiring A_i (row_at B j) of
                                  Some t_ij \<Rightarrow> [(j, t_ij)] | None \<Rightarrow> [])
                          else []) [0..<n]))"
    by blast
  show ?case
  proof (cases "row_at B n = []")
    case True
    with k st show ?thesis
      by (intro exI [where x = k]) simp
  next
    case False
    with k st show ?thesis
      by (intro exI [where x = n])
         (simp add: advance_and_check_sorted [OF assms k] split: option.splits)
  qed
qed

lemma Mask_row_product:
  assumes "sorted (map fst M_i)"
  shows "Mask_row semiring M_i A_i B = product_row (\<lambda>j. j \<in> fst ` set M_i) semiring A_i B"
proof -
  have "Mask_row semiring M_i A_i B
        = snd (fold (\<lambda>j (M_iter, T_row).
             if row_at B j = [] then (M_iter, T_row)
             else (case advance_and_check_mask_iterator M_iter j of
                     (ok, M_iter') \<Rightarrow>
                       if ok = False then (M_iter', T_row)
                       else (case dot semiring A_i (row_at B j) of
                               Some t_ij \<Rightarrow> (M_iter', T_row @ [(j, t_ij)])
                             | None \<Rightarrow> (M_iter', T_row))))
          [0..<nrows B] (M_i, []))"
    unfolding Mask_row_def
    by (rule arg_cong [where f = "\<lambda>f. snd (fold f [0..<nrows B] (M_i, []))"])
       (simp add: fun_eq_iff)
  also have "\<dots> = product_row (\<lambda>j. j \<in> fst ` set M_i) semiring A_i B"
    using masked_fold [OF assms, where cf = False and n = "nrows B" and B = B
                      and semiring = semiring and A_i = A_i]
    unfolding product_row_def by (elim exE conjE) (simp only: snd_conv simp_thms)
  finally show ?thesis .
qed

lemma CompMask_row_product:
  assumes "sorted (map fst M_i)"
  shows "CompMask_row semiring M_i A_i B = product_row (\<lambda>j. j \<notin> fst ` set M_i) semiring A_i B"
proof -
  have "CompMask_row semiring M_i A_i B
        = snd (fold (\<lambda>j (M_iter, T_row).
             if row_at B j = [] then (M_iter, T_row)
             else (case advance_and_check_mask_iterator M_iter j of
                     (ok, M_iter') \<Rightarrow>
                       if ok = True then (M_iter', T_row)
                       else (case dot semiring A_i (row_at B j) of
                               Some t_ij \<Rightarrow> (M_iter', T_row @ [(j, t_ij)])
                             | None \<Rightarrow> (M_iter', T_row))))
          [0..<nrows B] (M_i, []))"
    unfolding CompMask_row_def
    by (rule arg_cong [where f = "\<lambda>f. snd (fold f [0..<nrows B] (M_i, []))"])
       (simp add: fun_eq_iff)
  also have "\<dots> = product_row (\<lambda>j. j \<notin> fst ` set M_i) semiring A_i B"
    using masked_fold [OF assms, where cf = True and n = "nrows B" and B = B
                      and semiring = semiring and A_i = A_i]
    unfolding product_row_def by (elim exE conjE) (simp only: snd_conv simp_thms)
  finally show ?thesis .
qed

lemma product_row_cong:
  assumes "\<And>j. j < nrows B \<Longrightarrow> P j = Q j"
  shows "product_row P semiring A_i B = product_row Q semiring A_i B"
  unfolding product_row_def
  by (rule arg_cong [where f = concat], rule map_cong) (auto simp: assms)

lemma product_row_none: "product_row (\<lambda>j. False) semiring A_i B = []"
  by (simp add: product_row_def)

lemma dot_Nil: "dot semiring [] vec2 = None"
  by (simp add: dot_def)

lemma product_row_Nil: "product_row P semiring [] B = []"
  by (auto simp: product_row_def dot_Nil)

lemma product_row_empty_B: "nvals B = 0 \<Longrightarrow> product_row P semiring A_i B = []"
  by (auto simp: product_row_def nvals_0_rows)

lemma fst_product_row: "e \<in> set (product_row P semiring A_i B) \<Longrightarrow> fst e < nrows B"
  by (auto simp: product_row_def split: if_splits option.splits)

section \<open>Empty masks, complemented masks and whole stores\<close>

lemma store_eqI:
  fixes s1 s2 :: "'a store"
  assumes "\<And>p. p \<noteq> c \<Longrightarrow> s1 p = s2 p"
    and "ncols (s1 c) = ncols (s2 c)" and "nrows (s1 c) = nrows (s2 c)"
    and "\<And>i. i < nrows (s1 c) \<Longrightarrow> row_at (s1 c) i = row_at (s2 c) i"
  shows "s1 = s2"
proof
  fix p
  show "s1 p = s2 p"
  proof (cases "p = c")
    case True
    with assms(2-4) show ?thesis by (auto intro: matrix_eqI)
  next
    case False
    with assms(1) show ?thesis by simp
  qed
qed

lemma clear_clear: "clear (clear C) = clear C"
  by (simp add: clear_def)

lemma map_rows_idem:
  assumes "\<And>i r. g i (g i r) = g i r"
  shows "map_rows n g (map_rows n g C) = map_rows n g C"
  by (rule matrix_eqI) (simp_all add: shape_simps row_simps assms)

lemma mask_test_Nil: "mask_test [] complement j = complement"
  by (simp add: mask_test_def)

lemma masked_merge_Nil_uncomplemented: "masked_merge [] False existing [] = existing"
  by (simp add: masked_merge_def mask_test_Nil merge_rows_Nil2)

lemma masked_merge_Nil_complemented: "masked_merge [] True existing newRow = newRow"
  by (simp add: masked_merge_def mask_test_Nil)

lemma masked_accum_Nil_complemented:
  "masked_accum [] True accum existing newRow = merge_rows accum existing newRow"
  by (simp add: masked_accum_def mask_test_Nil)

lemma masked_accum_Nil_uncomplemented: "masked_accum [] False accum existing newRow = []"
  by (simp add: masked_accum_def mask_test_Nil)

lemma CompMask_row_Nil:
  "CompMask_row semiring [] A_i B = product_row (\<lambda>j. True) semiring A_i B"
  by (simp add: CompMask_row_product)

lemma accum_unmasked_product_shape:
  "nrows (accum_unmasked_product C accum semiring A B) = nrows C"
  "ncols (accum_unmasked_product C accum semiring A B) = ncols C"
  by (simp_all add: accum_unmasked_product_def nrows_def ncols_def)

lemma row_at_accum_unmasked_product:
  "i < nrows C \<Longrightarrow> row_at (accum_unmasked_product C accum semiring A B) i
     = merge_rows accum (row_at C i) (product_row (\<lambda>j. True) semiring (row_at A i) B)"
  by (simp add: accum_unmasked_product_def nrows_def row_at_def [of "_\<lparr>m_data := _\<rparr>"])

lemma CompMask_Accum_empty_mask_row:
  assumes "i < nrows (\<sigma> c)" and "nrows (\<sigma> a) = nrows (\<sigma> c)" and "row_at (\<sigma> m) i = []"
  shows "row_at (sparse_mxm_CompMask_Accum_ABT c m accum semiring a b replace_flag \<sigma> c) i
         = merge_rows accum (row_at (\<sigma> c) i)
             (product_row (\<lambda>j. True) semiring (row_at (\<sigma> a) i) (\<sigma> b))"
  using assms
  by (simp add: CompMask_Accum_entry_row CompMask_row_Nil masked_accum_Nil_complemented
        masked_merge_Nil_complemented product_row_Nil merge_rows_Nil2 Let_def)

lemma NoMask_Accum_entry_accum_product:
  assumes "nrows (\<sigma> a) = nrows (\<sigma> c)"
  shows "sparse_mxm_NoMask_Accum_ABT c accum semiring a b \<sigma>
         = \<sigma>(c := accum_unmasked_product (\<sigma> c) accum semiring (\<sigma> a) (\<sigma> b))"
proof (rule store_eqI [where c = c])
  fix i assume "i < nrows (sparse_mxm_NoMask_Accum_ABT c accum semiring a b \<sigma> c)"
  then have i: "i < nrows (\<sigma> c)" by (simp add: entry_dims)
  with assms have ia: "i < nrows (\<sigma> a)" by simp
  show "row_at (sparse_mxm_NoMask_Accum_ABT c accum semiring a b \<sigma> c) i
        = row_at ((\<sigma>(c := accum_unmasked_product (\<sigma> c) accum semiring (\<sigma> a) (\<sigma> b))) c) i"
    using i ia
    by (auto simp: NoMask_Accum_entry_row row_at_accum_unmasked_product NoMask_row_product
          product_row_Nil product_row_empty_B merge_rows_Nil2 nvals_0_rows)
qed (simp_all add: entry_frame entry_dims accum_unmasked_product_shape)

lemma row_sorted_sorted: "row_sorted r \<Longrightarrow> sorted (map fst r)"
  by (simp add: row_sorted_def strict_sorted_imp_sorted)

lemma masked_merge_cong:
  assumes "\<And>e. e \<in> set existing \<union> set newRow \<Longrightarrow>
             mask_test m1 c1 (fst e) = mask_test m2 c2 (fst e)"
  shows "masked_merge m1 c1 existing newRow = masked_merge m2 c2 existing newRow"
proof -
  have "filter (\<lambda>e. \<not> mask_test m1 c1 (fst e)) existing
        = filter (\<lambda>e. \<not> mask_test m2 c2 (fst e)) existing"
    by (rule filter_cong) (simp_all add: assms)
  moreover have "filter (\<lambda>e. mask_test m1 c1 (fst e)) newRow
        = filter (\<lambda>e. mask_test m2 c2 (fst e)) newRow"
    by (rule filter_cong) (simp_all add: assms)
  ultimately show ?thesis by (simp add: masked_merge_def)
qed

lemma masked_accum_cong:
  assumes "\<And>e. e \<in> set existing \<union> set newRow \<Longrightarrow>
             mask_test m1 c1 (fst e) = mask_test m2 c2 (fst e)"
  shows "masked_accum m1 c1 accum existing newRow = masked_accum m2 c2 accum existing newRow"
proof -
  have "filter (\<lambda>e. mask_test m1 c1 (fst e)) existing
        = filter (\<lambda>e. mask_test m2 c2 (fst e)) existing"
    by (rule filter_cong) (simp_all add: assms)
  moreover have "filter (\<lambda>e. mask_test m1 c1 (fst e)) newRow
        = filter (\<lambda>e. mask_test m2 c2 (fst e)) newRow"
    by (rule filter_cong) (simp_all add: assms)
  ultimately show ?thesis by (simp add: masked_accum_def)
qed

lemma fst_masked_accum:
  "e \<in> set (masked_accum m cf accum existing newRow)
   \<Longrightarrow> fst e \<in> fst ` set existing \<union> fst ` set newRow"
proof -
  assume "e \<in> set (masked_accum m cf accum existing newRow)"
  then have "fst e \<in> fst ` set (masked_accum m cf accum existing newRow)" by (rule imageI)
  then show ?thesis
    unfolding masked_accum_def fst_set_merge_rows by auto
qed

text \<open>Row \<open>i\<close> of a mask and of its complement, against the columns below the bound.\<close>

lemma complement_row:
  assumes "mask_complement_of M Mc" and "i < nrows M" and "j < ncols M"
  shows "(j \<in> fst ` set (row_at Mc i)) = (j \<notin> fst ` set (row_at M i))"
proof -
  from assms(1,2) have
    "set (map fst (row_at Mc i))
       = set (filter (\<lambda>j. j \<notin> set (map fst (row_at M i))) [0..<ncols M])"
    by (simp add: mask_complement_of_def)
  then have "(j \<in> set (map fst (row_at Mc i)))
             = (j \<in> set (filter (\<lambda>j. j \<notin> set (map fst (row_at M i))) [0..<ncols M]))"
    by simp
  with assms(3) show ?thesis by simp
qed

lemma complement_mask_test:
  assumes "mask_complement_of M Mc" and "i < nrows M" and "j < ncols M"
  shows "mask_test (row_at M i) True j = mask_test (row_at Mc i) False j"
  using complement_row [OF assms] by (auto simp: mask_test_def)

lemma complement_T_row:
  assumes "mask_complement_of M Mc" and "i < nrows M" and "nrows B = ncols M"
    and "rows_sorted M"
  shows "(if A_i \<noteq> [] then CompMask_row semiring (row_at M i) A_i B else [])
         = product_row (\<lambda>j. j \<in> fst ` set (row_at Mc i)) semiring A_i B"
    and "(if A_i \<noteq> [] \<and> row_at Mc i \<noteq> [] then Mask_row semiring (row_at Mc i) A_i B else [])
         = product_row (\<lambda>j. j \<in> fst ` set (row_at Mc i)) semiring A_i B"
proof -
  from assms(2,4) have sM: "sorted (map fst (row_at M i))"
    by (simp add: rows_sorted_def row_at_def nrows_def row_sorted_sorted)
  from assms(1,2) have sMc: "sorted (map fst (row_at Mc i))"
    by (simp add: mask_complement_of_def row_sorted_sorted)
  have "product_row (\<lambda>j. j \<notin> fst ` set (row_at M i)) semiring A_i B
        = product_row (\<lambda>j. j \<in> fst ` set (row_at Mc i)) semiring A_i B"
    by (rule product_row_cong) (simp add: complement_row [OF assms(1,2)] assms(3))
  then show "(if A_i \<noteq> [] then CompMask_row semiring (row_at M i) A_i B else [])
         = product_row (\<lambda>j. j \<in> fst ` set (row_at Mc i)) semiring A_i B"
    by (simp add: CompMask_row_product [OF sM] product_row_Nil)
  show "(if A_i \<noteq> [] \<and> row_at Mc i \<noteq> [] then Mask_row semiring (row_at Mc i) A_i B else [])
         = product_row (\<lambda>j. j \<in> fst ` set (row_at Mc i)) semiring A_i B"
    by (auto simp: Mask_row_product [OF sMc] product_row_Nil product_row_none)
qed

lemma complement_rows_dual:
  assumes comp: "mask_complement_of M Mc" and i: "i < nrows M"
    and inb: "\<And>e. e \<in> set C_i \<Longrightarrow> fst e < ncols M"
    and inP: "\<And>e. e \<in> set P \<Longrightarrow> fst e < ncols M"
  shows "masked_merge (row_at M i) True C_i P = masked_merge (row_at Mc i) False C_i P"
    and "masked_accum (row_at M i) True accum C_i P = masked_accum (row_at Mc i) False accum C_i P"
    and "masked_merge (row_at M i) True C_i (masked_accum (row_at M i) True accum C_i P)
         = masked_merge (row_at Mc i) False C_i (masked_accum (row_at Mc i) False accum C_i P)"
proof -
  have test: "mask_test (row_at M i) True (fst e) = mask_test (row_at Mc i) False (fst e)"
    if "fst e < ncols M" for e :: "nat \<times> 'a"
    using that by (rule complement_mask_test [OF comp i])
  have both: "mask_test (row_at M i) True (fst e) = mask_test (row_at Mc i) False (fst e)"
    if "e \<in> set C_i \<union> set P" for e
  proof -
    from that inb [of e] inP [of e] have "fst e < ncols M" by blast
    then show ?thesis by (rule test)
  qed
  show mm: "masked_merge (row_at M i) True C_i P = masked_merge (row_at Mc i) False C_i P"
    by (rule masked_merge_cong) (rule both)
  show ma: "masked_accum (row_at M i) True accum C_i P
            = masked_accum (row_at Mc i) False accum C_i P"
    by (rule masked_accum_cong) (rule both)
  have inZ: "fst e < ncols M" if "e \<in> set (masked_accum (row_at Mc i) False accum C_i P)" for e
    using fst_masked_accum [OF that] inb inP by fastforce
  have "masked_merge (row_at M i) True C_i (masked_accum (row_at Mc i) False accum C_i P)
         = masked_merge (row_at Mc i) False C_i (masked_accum (row_at Mc i) False accum C_i P)"
  proof (rule masked_merge_cong)
    fix e assume "e \<in> set C_i \<union> set (masked_accum (row_at Mc i) False accum C_i P)"
    with inb [of e] inZ [of e] have "fst e < ncols M" by blast
    then show "mask_test (row_at M i) True (fst e) = mask_test (row_at Mc i) False (fst e)"
      by (rule test)
  qed
  then show "masked_merge (row_at M i) True C_i (masked_accum (row_at M i) True accum C_i P)
         = masked_merge (row_at Mc i) False C_i (masked_accum (row_at Mc i) False accum C_i P)"
    by (simp only: ma)
qed

lemma empty_complement_row:
  assumes "mask_complement_of M Mc" and "i < nrows M" and "nvals Mc = 0"
  shows "row_at Mc i = []"
  using assms by (simp add: nvals_0_rows mask_complement_of_def)

lemma cols_in_bounds_row:
  "cols_in_bounds C \<Longrightarrow> i < nrows C \<Longrightarrow> e \<in> set (row_at C i) \<Longrightarrow> fst e < ncols C"
  by (auto simp: cols_in_bounds_def nrows_def row_at_def)

lemma CompMask_NoAccum_dual_row:
  assumes "nrows (\<sigma> a) = nrows (\<sigma> c)" and "nrows (\<sigma> b) = ncols (\<sigma> c)"
    and "nrows (\<sigma> m) = nrows (\<sigma> c)" and "ncols (\<sigma> m) = ncols (\<sigma> c)"
    and "rows_sorted (\<sigma> m)" and "cols_in_bounds (\<sigma> c)"
    and "mask_complement_of (\<sigma> m) (\<sigma> mc)" and "i < nrows (\<sigma> c)"
  shows "row_at (sparse_mxm_CompMask_NoAccum_ABT c m semiring a b replace_flag \<sigma> c) i
         = row_at (sparse_mxm_Mask_NoAccum_ABT c mc semiring a b replace_flag \<sigma> c) i"
proof -
  let ?P = "product_row (\<lambda>j. j \<in> fst ` set (row_at (\<sigma> mc) i)) semiring (row_at (\<sigma> a) i) (\<sigma> b)"
  have i: "i < nrows (\<sigma> m)" and nB: "nrows (\<sigma> b) = ncols (\<sigma> m)"
    using assms by simp_all
  have inb: "fst e < ncols (\<sigma> m)" if "e \<in> set (row_at (\<sigma> c) i)" for e
    using cols_in_bounds_row [OF assms(6,8) that] assms(4) by simp
  note T = complement_T_row [OF assms(7) i nB assms(5), of "row_at (\<sigma> a) i" semiring]
  have inP: "fst e < ncols (\<sigma> m)" if "e \<in> set ?P" for e
    using fst_product_row [OF that] nB by simp
  note D = complement_rows_dual [where C_i = "row_at (\<sigma> c) i" and P = ?P, OF assms(7) i inb inP]
  have M0: "row_at (\<sigma> mc) i = []" if "nvals (\<sigma> mc) = 0"
    using that by (rule empty_complement_row [OF assms(7) i])
  have A0: "?P = []" if "nvals (\<sigma> a) = 0"
    using that assms(1,8) by (simp add: nvals_0_rows product_row_Nil)
  have B0: "?P = []" if "nvals (\<sigma> b) = 0"
    using that by (simp add: product_row_empty_B)
  show ?thesis
    unfolding CompMask_NoAccum_entry_row [OF assms(8,1)] Mask_NoAccum_entry_row [OF assms(8,1)]
      Let_def T
    using D(1) A0 B0 M0
    by (auto simp: product_row_none masked_merge_Nil_uncomplemented)
qed

lemma CompMask_Accum_dual_row:
  assumes "nrows (\<sigma> a) = nrows (\<sigma> c)" and "nrows (\<sigma> b) = ncols (\<sigma> c)"
    and "nrows (\<sigma> m) = nrows (\<sigma> c)" and "ncols (\<sigma> m) = ncols (\<sigma> c)"
    and "rows_sorted (\<sigma> m)" and "cols_in_bounds (\<sigma> c)"
    and "mask_complement_of (\<sigma> m) (\<sigma> mc)" and "i < nrows (\<sigma> c)"
  shows "row_at (sparse_mxm_CompMask_Accum_ABT c m accum semiring a b replace_flag \<sigma> c) i
         = row_at (sparse_mxm_Mask_Accum_ABT c mc accum semiring a b replace_flag \<sigma> c) i"
proof -
  let ?P = "product_row (\<lambda>j. j \<in> fst ` set (row_at (\<sigma> mc) i)) semiring (row_at (\<sigma> a) i) (\<sigma> b)"
  have i: "i < nrows (\<sigma> m)" and nB: "nrows (\<sigma> b) = ncols (\<sigma> m)"
    using assms by simp_all
  have inb: "fst e < ncols (\<sigma> m)" if "e \<in> set (row_at (\<sigma> c) i)" for e
    using cols_in_bounds_row [OF assms(6,8) that] assms(4) by simp
  note T = complement_T_row [OF assms(7) i nB assms(5), of "row_at (\<sigma> a) i" semiring]
  have inP: "fst e < ncols (\<sigma> m)" if "e \<in> set ?P" for e
    using fst_product_row [OF that] nB by simp
  note D = complement_rows_dual [where C_i = "row_at (\<sigma> c) i" and P = ?P, OF assms(7) i inb inP]
  have M0: "row_at (\<sigma> mc) i = []" if "nvals (\<sigma> mc) = 0"
    using that by (rule empty_complement_row [OF assms(7) i])
  show ?thesis
    unfolding CompMask_Accum_entry_row [OF assms(8,1)] Mask_Accum_entry_row [OF assms(8,1)]
      Let_def T
    using D M0
    by (auto simp: product_row_none masked_merge_Nil_uncomplemented
          masked_accum_Nil_uncomplemented)
qed

section \<open>Short circuits of the entry points\<close>

text \<open>
  C6. \<^verbatim>\<open>sparse_mxm_NoMask_NoAccum_ABT\<close>: when \<open>A\<close> or \<open>B\<close> has no stored value, the
  call leaves the cleared \<open>C\<close> (no stored value) in the store and nothing else changes;
  the kernel takes no part in the result. This holds for every prior \<open>C\<close> and semiring.
\<close>

theorem NoMask_NoAccum_short_circuit:
  assumes "nvals (\<sigma> a) = 0 \<or> nvals (\<sigma> b) = 0"
  shows "sparse_mxm_NoMask_NoAccum_ABT c semiring a b \<sigma> = \<sigma>(c := clear (\<sigma> c))
         \<and> nvals (sparse_mxm_NoMask_NoAccum_ABT c semiring a b \<sigma> c) = 0"
  using assms by (auto simp: sparse_mxm_NoMask_NoAccum_ABT_def nvals_clear)

theorem NoMask_NoAccum_short_circuit_witness:
  "(nvals (ex_store 3) = 0 \<or> nvals (ex_store 2) = 0)
   \<and> sparse_mxm_NoMask_NoAccum_ABT 0 plus_times 3 2 ex_store = ex_store(0 := clear (ex_store 0))
   \<and> nvals (sparse_mxm_NoMask_NoAccum_ABT 0 plus_times 3 2 ex_store 0) = 0"
proof -
  have h: "nvals (ex_store 3) = 0 \<or> nvals (ex_store 2) = 0"
    by (simp add: example_defs nvals_def)
  from NoMask_NoAccum_short_circuit
         [where \<sigma> = ex_store and a = 3 and b = 2 and c = 0 and semiring = plus_times, OF h] h
  show ?thesis by (simp add: nvals_clear)
qed

text \<open>
  C7. \<^verbatim>\<open>sparse_mxm_NoMask_Accum_ABT\<close>: when \<open>A\<close> or \<open>B\<close> has no stored value, the call
  returns with the store, and so every row and value of \<open>C\<close>, unchanged, for every
  accumulator and semiring.
\<close>

theorem NoMask_Accum_short_circuit:
  assumes "nvals (\<sigma> a) = 0 \<or> nvals (\<sigma> b) = 0"
  shows "sparse_mxm_NoMask_Accum_ABT c accum semiring a b \<sigma> = \<sigma>"
  using assms by (auto simp: sparse_mxm_NoMask_Accum_ABT_def)

theorem NoMask_Accum_short_circuit_witness:
  "(nvals (ex_store 1) = 0 \<or> nvals (ex_store 3) = 0)
   \<and> sparse_mxm_NoMask_Accum_ABT 0 (+) plus_times 1 3 ex_store = ex_store"
proof -
  have h: "nvals (ex_store 1) = 0 \<or> nvals (ex_store 3) = 0"
    by (simp add: example_defs nvals_def)
  from NoMask_Accum_short_circuit
         [where \<sigma> = ex_store and a = 1 and b = 3 and c = 0 and accum = "(+)"
            and semiring = plus_times, OF h] h
  show ?thesis by simp
qed

text \<open>
  C4. \<^verbatim>\<open>sparse_mxm_Mask_Accum_ABT\<close> with a mask that has no stored value: with the
  replace flag set the call leaves the cleared \<open>C\<close> (no stored value) and no kernel takes
  part in the result; with the flag not set it returns with the store unchanged. This
  holds for every \<open>A\<close>, \<open>B\<close>, accumulator and semiring.
\<close>

theorem Mask_Accum_empty_mask:
  assumes "nvals (\<sigma> m) = 0"
  shows "sparse_mxm_Mask_Accum_ABT c m accum semiring a b True \<sigma> = \<sigma>(c := clear (\<sigma> c))
         \<and> nvals (sparse_mxm_Mask_Accum_ABT c m accum semiring a b True \<sigma> c) = 0
         \<and> sparse_mxm_Mask_Accum_ABT c m accum semiring a b False \<sigma> = \<sigma>"
  using assms by (simp add: sparse_mxm_Mask_Accum_ABT_def nvals_clear)

theorem Mask_Accum_empty_mask_witness:
  "nvals (ex_store 3) = 0
   \<and> 0 < nvals (ex_store 1) \<and> 0 < nvals (ex_store 2) \<and> 0 < nvals (ex_store 0)
   \<and> sparse_mxm_Mask_Accum_ABT 0 3 (+) plus_times 1 2 True ex_store
       = ex_store(0 := clear (ex_store 0))
   \<and> nvals (sparse_mxm_Mask_Accum_ABT 0 3 (+) plus_times 1 2 True ex_store 0) = 0
   \<and> sparse_mxm_Mask_Accum_ABT 0 3 (+) plus_times 1 2 False ex_store = ex_store"
proof -
  have h: "nvals (ex_store 3) = 0"
    by (simp add: example_defs nvals_def)
  have nonempty: "0 < nvals (ex_store 1) \<and> 0 < nvals (ex_store 2) \<and> 0 < nvals (ex_store 0)"
    by (simp add: example_defs nvals_def)
  from Mask_Accum_empty_mask
         [where \<sigma> = ex_store and m = 3 and c = 0 and accum = "(+)" and semiring = plus_times
            and a = 1 and b = 2, OF h] h nonempty
  show ?thesis by (simp add: nvals_clear)
qed

section \<open>Rows of the unmasked replace entry point and aliasing of the other five\<close>

text \<open>
  With both operands non-empty, row \<open>i\<close> of \<open>C\<close> after the unmasked replace call is row
  \<open>i\<close> of the product when \<open>A[i]\<close> is not empty or \<open>C\<close> is \<open>B\<close> (the temporary starts
  empty); when \<open>A[i]\<close> is empty and \<open>C\<close> is not \<open>B\<close> it is what \<open>C[i]\<close> was before.
  The other five entry points give the same \<open>C\<close> whether \<open>B\<close> is \<open>C\<close> itself or a copy of
  it at another address \<open>d\<close>.
\<close>

lemma NoMask_NoAccum_entry_product_rows:
  assumes "0 < nvals (\<sigma> a)" and "0 < nvals (\<sigma> b)" and "nrows (\<sigma> a) = nrows (\<sigma> c)"
    and "i < nrows (\<sigma> c)"
  shows "row_at (sparse_mxm_NoMask_NoAccum_ABT c semiring a b \<sigma> c) i =
     (if row_at (\<sigma> a) i \<noteq> [] \<or> c = b
      then product_row (\<lambda>j. True) semiring (row_at (\<sigma> a) i) (\<sigma> b)
      else row_at (\<sigma> c) i)"
  using assms
  by (simp add: NoMask_NoAccum_entry_row NoMask_row_product product_row_Nil)

lemma alias_safe_except_NoMask_NoAccum:
  assumes "d \<noteq> c" and "d \<noteq> a" and "d \<noteq> m" and "nrows (\<sigma> a) = nrows (\<sigma> c)"
  shows "sparse_mxm_NoMask_Accum_ABT c accum semiring a c \<sigma> c
         = sparse_mxm_NoMask_Accum_ABT c accum semiring a d (\<sigma>(d := \<sigma> c)) c"
    and "sparse_mxm_Mask_NoAccum_ABT c m semiring a c replace_flag \<sigma> c
         = sparse_mxm_Mask_NoAccum_ABT c m semiring a d replace_flag (\<sigma>(d := \<sigma> c)) c"
    and "sparse_mxm_Mask_Accum_ABT c m accum semiring a c replace_flag \<sigma> c
         = sparse_mxm_Mask_Accum_ABT c m accum semiring a d replace_flag (\<sigma>(d := \<sigma> c)) c"
    and "sparse_mxm_CompMask_NoAccum_ABT c m semiring a c replace_flag \<sigma> c
         = sparse_mxm_CompMask_NoAccum_ABT c m semiring a d replace_flag (\<sigma>(d := \<sigma> c)) c"
    and "sparse_mxm_CompMask_Accum_ABT c m accum semiring a c replace_flag \<sigma> c
         = sparse_mxm_CompMask_Accum_ABT c m accum semiring a d replace_flag (\<sigma>(d := \<sigma> c)) c"
  using assms
  by (auto intro!: matrix_eqI
        simp: entry_dims NoMask_Accum_entry_row Mask_NoAccum_entry_row Mask_Accum_entry_row
          CompMask_NoAccum_entry_row CompMask_Accum_entry_row Let_def)

section \<open>The unwritten row of the unmasked replace kernel\<close>

text \<open>
  C1, evaluated. On the specification's example, with \<open>C\<close> distinct from \<open>B\<close> and both
  operands non-empty, row 0 of \<open>C\<close> becomes the row of dot products, but row 1, where
  \<open>A\<close> is empty, still holds the value \<open>C\<close> had before the call: the kernel's
  \<^verbatim>\<open>continue\<close> skips \<^verbatim>\<open>C.setRow\<close>.
\<close>

theorem NoMask_NoAccum_keeps_stale_row:
  "0 < nvals (ex_store 1) \<and> 0 < nvals (ex_store 2) \<and> row_at (ex_store 1) 1 = []
   \<and> sparse_mxm_NoMask_NoAccum_ABT 0 plus_times 1 2 ex_store 0
       = \<lparr>m_num_cols = 2, m_data = [[(0, 1), (1, 4)], [(1, 7)]]\<rparr>"
  by (simp add: example_defs container_defs sparse_mxm_NoMask_NoAccum_ABT_def
        ABT_NoMask_NoAccum_kernel_def NoMask_row_def dot_def upt_rec)

text \<open>
  C2, evaluated. With \<open>C\<close> and \<open>B\<close> the same matrix (address 0) the unmasked replace
  entry point computes into a fresh temporary and row 1 comes out empty; with \<open>B\<close> a copy
  at address 2 the kernel writes into \<open>C\<close> itself and row 1 keeps its old value. The two
  results differ.
\<close>

theorem NoMask_NoAccum_alias_differs:
  "alias_store 2 = alias_store 0
   \<and> sparse_mxm_NoMask_NoAccum_ABT 0 plus_times 1 0 alias_store 0
       = \<lparr>m_num_cols = 2, m_data = [[(0, 2)], []]\<rparr>
   \<and> sparse_mxm_NoMask_NoAccum_ABT 0 plus_times 1 2 alias_store 0
       = \<lparr>m_num_cols = 2, m_data = [[(0, 2)], [(1, 3)]]\<rparr>"
  by (simp add: example_defs container_defs sparse_mxm_NoMask_NoAccum_ABT_def
        ABT_NoMask_NoAccum_kernel_def NoMask_row_def dot_def upt_rec)

section \<open>Idempotence of the unmasked replace entry point\<close>

text \<open>
  C8. \<^verbatim>\<open>sparse_mxm_NoMask_NoAccum_ABT\<close> is idempotent in its output: with \<open>C\<close> not the
  same object as \<open>B\<close> (and, for \<open>A\<close> to be the same in both calls, not the same object
  as \<open>A\<close>), a second call with the same \<open>A\<close>, \<open>B\<close> and semiring on the store left by
  the first call leaves that store as it is.
\<close>

theorem NoMask_NoAccum_idempotent:
  assumes "c \<noteq> a" and "c \<noteq> b"
  shows "sparse_mxm_NoMask_NoAccum_ABT c semiring a b
           (sparse_mxm_NoMask_NoAccum_ABT c semiring a b \<sigma>)
         = sparse_mxm_NoMask_NoAccum_ABT c semiring a b \<sigma>"
proof (cases "nvals (\<sigma> a) = 0 \<or> nvals (\<sigma> b) = 0")
  case True
  with assms show ?thesis
    by (simp add: sparse_mxm_NoMask_NoAccum_ABT_def clear_clear)
next
  case False
  with assms show ?thesis
    by (simp add: sparse_mxm_NoMask_NoAccum_ABT_def NoMask_NoAccum_kernel_rows map_rows_idem)
qed

theorem NoMask_NoAccum_idempotent_witness:
  "(0::addr) \<noteq> 1 \<and> (0::addr) \<noteq> 2
   \<and> sparse_mxm_NoMask_NoAccum_ABT 0 plus_times 1 2
         (sparse_mxm_NoMask_NoAccum_ABT 0 plus_times 1 2 ex_store)
       = sparse_mxm_NoMask_NoAccum_ABT 0 plus_times 1 2 ex_store
   \<and> sparse_mxm_NoMask_NoAccum_ABT 0 plus_times 1 2 ex_store 0
       = \<lparr>m_num_cols = 2, m_data = [[(0, 1), (1, 4)], [(1, 7)]]\<rparr>"
proof -
  have h1: "(0::addr) \<noteq> 1" and h2: "(0::addr) \<noteq> 2" by simp_all
  have v: "sparse_mxm_NoMask_NoAccum_ABT 0 plus_times 1 2 ex_store 0
           = \<lparr>m_num_cols = 2, m_data = [[(0, 1), (1, 4)], [(1, 7)]]\<rparr>"
    by (simp add: eval_defs)
  from NoMask_NoAccum_idempotent
         [where c = 0 and a = 1 and b = 2 and semiring = plus_times and \<sigma> = ex_store, OF h1 h2]
       h1 h2 v
  show ?thesis by (simp only: simp_thms)
qed

section \<open>Dimensions of the destination\<close>

text \<open>
  C9. Each of the six entry points leaves the number of rows and the number of columns
  of \<open>C\<close> as they were, for all operands, flags and aliasing: the temporaries are
  allocated with the dimensions of \<open>C\<close>, rows are replaced one by one, and clearing keeps
  one (empty) row per row index.
\<close>

theorem entry_points_preserve_dimensions:
  "nrows (sparse_mxm_NoMask_NoAccum_ABT c semiring a b \<sigma> c) = nrows (\<sigma> c)
   \<and> ncols (sparse_mxm_NoMask_NoAccum_ABT c semiring a b \<sigma> c) = ncols (\<sigma> c)
   \<and> nrows (sparse_mxm_NoMask_Accum_ABT c accum semiring a b \<sigma> c) = nrows (\<sigma> c)
   \<and> ncols (sparse_mxm_NoMask_Accum_ABT c accum semiring a b \<sigma> c) = ncols (\<sigma> c)
   \<and> nrows (sparse_mxm_Mask_NoAccum_ABT c m semiring a b replace_flag \<sigma> c) = nrows (\<sigma> c)
   \<and> ncols (sparse_mxm_Mask_NoAccum_ABT c m semiring a b replace_flag \<sigma> c) = ncols (\<sigma> c)
   \<and> nrows (sparse_mxm_Mask_Accum_ABT c m accum semiring a b replace_flag \<sigma> c) = nrows (\<sigma> c)
   \<and> ncols (sparse_mxm_Mask_Accum_ABT c m accum semiring a b replace_flag \<sigma> c) = ncols (\<sigma> c)
   \<and> nrows (sparse_mxm_CompMask_NoAccum_ABT c m semiring a b replace_flag \<sigma> c) = nrows (\<sigma> c)
   \<and> ncols (sparse_mxm_CompMask_NoAccum_ABT c m semiring a b replace_flag \<sigma> c) = ncols (\<sigma> c)
   \<and> nrows (sparse_mxm_CompMask_Accum_ABT c m accum semiring a b replace_flag \<sigma> c)
       = nrows (\<sigma> c)
   \<and> ncols (sparse_mxm_CompMask_Accum_ABT c m accum semiring a b replace_flag \<sigma> c)
       = ncols (\<sigma> c)"
  by (simp only: entry_dims simp_thms)

section \<open>Rows outside the mask under merge\<close>

text \<open>
  C10. \<^verbatim>\<open>sparse_mxm_Mask_NoAccum_ABT\<close> with the replace flag not set: a row \<open>i\<close> whose
  mask row \<open>M[i]\<close> has no stored entry ends the call with \<open>C[i]\<close> equal, as a sequence of
  (column, value) pairs, to its contents before the call. The operands have the shapes
  the interface requires. The statement does not need \<open>M\<close> to have a stored value
  elsewhere (when it has none the short circuit returns \<open>C\<close> unchanged); the example
  that follows the theorem takes a mask with a stored value, so that the kernel runs.
\<close>

theorem Mask_NoAccum_merge_keeps_row:
  assumes "i < nrows (\<sigma> c)" and "nrows (\<sigma> a) = nrows (\<sigma> c)"
    and "nrows (\<sigma> m) = nrows (\<sigma> c)" and "row_at (\<sigma> m) i = []"
  shows "row_at (sparse_mxm_Mask_NoAccum_ABT c m semiring a b False \<sigma> c) i = row_at (\<sigma> c) i"
  using assms
  by (simp add: Mask_NoAccum_entry_row masked_merge_Nil_uncomplemented)

theorem Mask_NoAccum_merge_keeps_row_witness:
  "1 < nrows (ex_store 0) \<and> nrows (ex_store 1) = nrows (ex_store 0)
   \<and> nrows (ex_store 4) = nrows (ex_store 0) \<and> row_at (ex_store 4) 1 = []
   \<and> 0 < nvals (ex_store 4)
   \<and> row_at (sparse_mxm_Mask_NoAccum_ABT 0 4 plus_times 1 2 False ex_store 0) 1
       = row_at (ex_store 0) 1
   \<and> row_at (ex_store 0) 1 = [(1, 7)]
   \<and> sparse_mxm_Mask_NoAccum_ABT 0 4 plus_times 1 2 False ex_store 0
       = \<lparr>m_num_cols = 2, m_data = [[(0, 1)], [(1, 7)]]\<rparr>"
proof -
  have h1: "1 < nrows (ex_store 0)" and h2: "nrows (ex_store 1) = nrows (ex_store 0)"
    and h3: "nrows (ex_store 4) = nrows (ex_store 0)" and h4: "row_at (ex_store 4) 1 = []"
    by (simp_all add: example_defs container_defs)
  have v: "0 < nvals (ex_store 4) \<and> row_at (ex_store 0) 1 = [(1, 7)]"
    by (simp add: example_defs container_defs)
  have w: "sparse_mxm_Mask_NoAccum_ABT 0 4 plus_times 1 2 False ex_store 0
           = \<lparr>m_num_cols = 2, m_data = [[(0, 1)], [(1, 7)]]\<rparr>"
    by (simp add: eval_defs)
  from Mask_NoAccum_merge_keeps_row
         [where i = 1 and c = 0 and a = 1 and m = 4 and b = 2 and semiring = plus_times
            and \<sigma> = ex_store, OF h1 h2 h3 h4]
       h1 h2 h3 h4 v w
  show ?thesis by (simp only: simp_thms)
qed

section \<open>The complemented accumulate entry point under an empty mask\<close>

text \<open>
  C5. \<^verbatim>\<open>sparse_mxm_CompMask_Accum_ABT\<close> has no short circuit. For operands of the
  shapes the interface requires, every row \<open>i\<close> whose mask row is empty is computed, with
  every non-empty row of \<open>B\<close> eligible: it ends as \<open>C[i]\<close> merged through the accumulator
  with row \<open>i\<close> of the full product. With a mask that has no stored value at all, the
  call therefore leaves the accumulation of the full unmasked product \<open>A +.* B'\<close> into
  \<open>C\<close>, which is also what \<^verbatim>\<open>sparse_mxm_NoMask_Accum_ABT\<close> leaves. This holds for both
  values of the replace flag and whether or not \<open>C\<close> is \<open>B\<close>.
\<close>

theorem CompMask_Accum_empty_mask:
  assumes "nrows (\<sigma> a) = nrows (\<sigma> c)" and "nrows (\<sigma> m) = nrows (\<sigma> c)"
  shows "(\<forall>i < nrows (\<sigma> c). row_at (\<sigma> m) i = [] \<longrightarrow>
            row_at (sparse_mxm_CompMask_Accum_ABT c m accum semiring a b replace_flag \<sigma> c) i
            = merge_rows accum (row_at (\<sigma> c) i)
                (product_row (\<lambda>j. True) semiring (row_at (\<sigma> a) i) (\<sigma> b)))
       \<and> (nvals (\<sigma> m) = 0 \<longrightarrow>
            sparse_mxm_CompMask_Accum_ABT c m accum semiring a b replace_flag \<sigma>
              = \<sigma>(c := accum_unmasked_product (\<sigma> c) accum semiring (\<sigma> a) (\<sigma> b))
          \<and> sparse_mxm_CompMask_Accum_ABT c m accum semiring a b replace_flag \<sigma>
              = sparse_mxm_NoMask_Accum_ABT c accum semiring a b \<sigma>)"
proof (intro conjI allI impI)
  fix i assume "i < nrows (\<sigma> c)" "row_at (\<sigma> m) i = []"
  with assms(1)
  show "row_at (sparse_mxm_CompMask_Accum_ABT c m accum semiring a b replace_flag \<sigma> c) i
        = merge_rows accum (row_at (\<sigma> c) i)
            (product_row (\<lambda>j. True) semiring (row_at (\<sigma> a) i) (\<sigma> b))"
    by (simp add: CompMask_Accum_empty_mask_row)
next
  assume empty: "nvals (\<sigma> m) = 0"
  show whole: "sparse_mxm_CompMask_Accum_ABT c m accum semiring a b replace_flag \<sigma>
        = \<sigma>(c := accum_unmasked_product (\<sigma> c) accum semiring (\<sigma> a) (\<sigma> b))"
  proof (rule store_eqI [where c = c])
    fix i assume "i < nrows (sparse_mxm_CompMask_Accum_ABT c m accum semiring a b replace_flag \<sigma> c)"
    then have i: "i < nrows (\<sigma> c)" by (simp add: entry_dims)
    with assms(2) empty have "row_at (\<sigma> m) i = []" by (simp add: nvals_0_rows)
    with i assms(1)
    show "row_at (sparse_mxm_CompMask_Accum_ABT c m accum semiring a b replace_flag \<sigma> c) i
          = row_at ((\<sigma>(c := accum_unmasked_product (\<sigma> c) accum semiring (\<sigma> a) (\<sigma> b))) c) i"
      by (simp add: CompMask_Accum_empty_mask_row row_at_accum_unmasked_product)
  qed (simp_all add: entry_frame entry_dims accum_unmasked_product_shape)
  show "sparse_mxm_CompMask_Accum_ABT c m accum semiring a b replace_flag \<sigma>
        = sparse_mxm_NoMask_Accum_ABT c accum semiring a b \<sigma>"
    by (simp only: whole NoMask_Accum_entry_accum_product [OF assms(1)])
qed

theorem CompMask_Accum_empty_mask_witness:
  "nrows (ex_store 1) = nrows (ex_store 0) \<and> nrows (ex_store 3) = nrows (ex_store 0)
   \<and> nvals (ex_store 3) = 0 \<and> 1 < nrows (ex_store 0) \<and> row_at (ex_store 3) 1 = []
   \<and> row_at (sparse_mxm_CompMask_Accum_ABT 0 3 (+) plus_times 1 2 True ex_store 0) 1
       = merge_rows (+) (row_at (ex_store 0) 1)
           (product_row (\<lambda>j. True) plus_times (row_at (ex_store 1) 1) (ex_store 2))
   \<and> sparse_mxm_CompMask_Accum_ABT 0 3 (+) plus_times 1 2 True ex_store
       = ex_store(0 := accum_unmasked_product (ex_store 0) (+) plus_times (ex_store 1) (ex_store 2))
   \<and> sparse_mxm_CompMask_Accum_ABT 0 3 (+) plus_times 1 2 True ex_store
       = sparse_mxm_NoMask_Accum_ABT 0 (+) plus_times 1 2 ex_store
   \<and> sparse_mxm_CompMask_Accum_ABT 0 3 (+) plus_times 1 2 True ex_store 0
       = \<lparr>m_num_cols = 2, m_data = [[(0, 1), (1, 4)], [(1, 7)]]\<rparr>"
proof -
  have h1: "nrows (ex_store 1) = nrows (ex_store 0)"
    and h2: "nrows (ex_store 3) = nrows (ex_store 0)"
    and h3: "nvals (ex_store 3) = 0" and h4: "1 < nrows (ex_store 0)"
    and h5: "row_at (ex_store 3) 1 = []"
    by (simp_all add: example_defs container_defs)
  have v: "sparse_mxm_CompMask_Accum_ABT 0 3 (+) plus_times 1 2 True ex_store 0
           = \<lparr>m_num_cols = 2, m_data = [[(0, 1), (1, 4)], [(1, 7)]]\<rparr>"
    by (simp add: eval_defs)
  from CompMask_Accum_empty_mask
         [where c = 0 and a = 1 and m = 3 and b = 2 and semiring = plus_times and accum = "(+)"
            and replace_flag = True and \<sigma> = ex_store, OF h1 h2]
       h1 h2 h3 h4 h5 v
  show ?thesis by blast
qed

section \<open>Complemented mask against the mask of the complement\<close>

text \<open>
  C3. For operands of the shapes the interface requires (\<open>C\<close> has the rows of \<open>A\<close> and as
  many columns as \<open>B\<close> has rows, \<open>M\<close> has the shape of \<open>C\<close>), a mask with sorted rows and
  a destination whose stored columns are within bounds: the complemented entry points
  called with \<open>M\<close> leave the same store as the uncomplemented entry points called with a
  mask that has a stored entry at exactly the positions within bounds where \<open>M\<close> has
  none. This holds for each semiring, accumulator and replace flag, and whether or not
  \<open>C\<close> is \<open>B\<close>.
\<close>

theorem mask_complement_duality:
  assumes "nrows (\<sigma> a) = nrows (\<sigma> c)" and "nrows (\<sigma> b) = ncols (\<sigma> c)"
    and "nrows (\<sigma> m) = nrows (\<sigma> c)" and "ncols (\<sigma> m) = ncols (\<sigma> c)"
    and "rows_sorted (\<sigma> m)" and "cols_in_bounds (\<sigma> c)"
    and "mask_complement_of (\<sigma> m) (\<sigma> mc)"
  shows "sparse_mxm_CompMask_NoAccum_ABT c m semiring a b replace_flag \<sigma>
           = sparse_mxm_Mask_NoAccum_ABT c mc semiring a b replace_flag \<sigma>
       \<and> sparse_mxm_CompMask_Accum_ABT c m accum semiring a b replace_flag \<sigma>
           = sparse_mxm_Mask_Accum_ABT c mc accum semiring a b replace_flag \<sigma>"
proof
  show "sparse_mxm_CompMask_NoAccum_ABT c m semiring a b replace_flag \<sigma>
           = sparse_mxm_Mask_NoAccum_ABT c mc semiring a b replace_flag \<sigma>"
    by (rule store_eqI [where c = c])
       (simp_all add: entry_frame entry_dims CompMask_NoAccum_dual_row [OF assms])
  show "sparse_mxm_CompMask_Accum_ABT c m accum semiring a b replace_flag \<sigma>
           = sparse_mxm_Mask_Accum_ABT c mc accum semiring a b replace_flag \<sigma>"
    by (rule store_eqI [where c = c])
       (simp_all add: entry_frame entry_dims CompMask_Accum_dual_row [OF assms])
qed

theorem mask_complement_duality_witness:
  "nrows (ex_store 1) = nrows (ex_store 0) \<and> nrows (ex_store 2) = ncols (ex_store 0)
   \<and> nrows (ex_store 4) = nrows (ex_store 0) \<and> ncols (ex_store 4) = ncols (ex_store 0)
   \<and> rows_sorted (ex_store 4) \<and> cols_in_bounds (ex_store 0)
   \<and> mask_complement_of (ex_store 4) (ex_store 5)
   \<and> sparse_mxm_CompMask_NoAccum_ABT 0 4 plus_times 1 2 False ex_store
       = sparse_mxm_Mask_NoAccum_ABT 0 5 plus_times 1 2 False ex_store
   \<and> sparse_mxm_CompMask_Accum_ABT 0 4 (+) plus_times 1 2 False ex_store
       = sparse_mxm_Mask_Accum_ABT 0 5 (+) plus_times 1 2 False ex_store
   \<and> sparse_mxm_CompMask_NoAccum_ABT 0 4 plus_times 1 2 False ex_store 0
       = \<lparr>m_num_cols = 2, m_data = [[(1, 4)], []]\<rparr>
   \<and> sparse_mxm_CompMask_Accum_ABT 0 4 (+) plus_times 1 2 False ex_store 0
       = \<lparr>m_num_cols = 2, m_data = [[(1, 4)], [(1, 7)]]\<rparr>"
proof -
  have h1: "nrows (ex_store 1) = nrows (ex_store 0)"
    and h2: "nrows (ex_store 2) = ncols (ex_store 0)"
    and h3: "nrows (ex_store 4) = nrows (ex_store 0)"
    and h4: "ncols (ex_store 4) = ncols (ex_store 0)"
    by (simp_all add: example_defs container_defs)
  have h5: "rows_sorted (ex_store 4)"
    by (simp add: example_defs rows_sorted_def row_sorted_def)
  have h6: "cols_in_bounds (ex_store 0)"
    by (simp add: example_defs cols_in_bounds_def ncols_def)
  have h7: "mask_complement_of (ex_store 4) (ex_store 5)"
    by (simp add: example_defs container_defs row_sorted_def mask_complement_of_def
          All_less_Suc upt_rec)
  have v1: "sparse_mxm_CompMask_NoAccum_ABT 0 4 plus_times 1 2 False ex_store 0
            = \<lparr>m_num_cols = 2, m_data = [[(1, 4)], []]\<rparr>"
    by (simp add: eval_defs)
  have v2: "sparse_mxm_CompMask_Accum_ABT 0 4 (+) plus_times 1 2 False ex_store 0
            = \<lparr>m_num_cols = 2, m_data = [[(1, 4)], [(1, 7)]]\<rparr>"
    by (simp add: eval_defs)
  from mask_complement_duality
         [where c = 0 and a = 1 and m = 4 and mc = 5 and b = 2 and semiring = plus_times
            and accum = "(+)" and replace_flag = False and \<sigma> = ex_store,
          OF h1 h2 h3 h4 h5 h6 h7]
       h1 h2 h3 h4 h5 h6 h7 v1 v2
  show ?thesis by (simp only: simp_thms)
qed

end
